theory Spec2Isabelle
  imports Complex_Main "HOL-Library.AList"
begin

section \<open>Strings and the regular expressions of the source\<close>

text \<open>
  A JavaScript string is a sequence of UTF-16 code units and \<open>length\<close> counts them.
  A \<^typ>\<open>char\<close> stands for one code unit below 256, so the model covers the strings
  over Latin-1. In that range \<open>\s\<close> and \<open>trim()\<close> recognise the seven characters of
  \<open>isSpace\<close>, \<open>\d\<close> is \<open>[0-9]\<close>, \<open>\w\<close> is \<open>[A-Za-z0-9_]\<close>, and \<open>toLowerCase()\<close> maps
  \<open>A-Z\<close> and the upper-case letters \<open>0xC0-0xDE\<close> (without \<open>0xD7\<close>) to the code unit
  32 above.
\<close>

definition isDigit :: "char \<Rightarrow> bool" where
  "isDigit c = (c \<in> set ''0123456789'')"

definition isUpper :: "char \<Rightarrow> bool" where
  "isUpper c = (c \<in> set ''ABCDEFGHIJKLMNOPQRSTUVWXYZ'')"

definition isLower :: "char \<Rightarrow> bool" where
  "isLower c = (c \<in> set ''abcdefghijklmnopqrstuvwxyz'')"

definition isWordChar :: "char \<Rightarrow> bool" where
  "isWordChar c = (isLower c \<or> isUpper c \<or> isDigit c \<or> c = CHR ''_'')"

definition isSpace :: "char \<Rightarrow> bool" where
  "isSpace c = (c \<in> set [CHR 0x09, CHR 0x0A, CHR 0x0B, CHR 0x0C, CHR 0x0D, CHR 0x20, CHR 0xA0])"

definition trim :: "string \<Rightarrow> string" where
  "trim s = rev (dropWhile isSpace (rev (dropWhile isSpace s)))"

definition asciiLower :: "char \<Rightarrow> char" where
  "asciiLower c =
     (case map_of (zip ''ABCDEFGHIJKLMNOPQRSTUVWXYZ'' ''abcdefghijklmnopqrstuvwxyz'') c of
        Some l \<Rightarrow> l
      | None \<Rightarrow> c)"

definition latin1Upper :: string where
  "latin1Upper =
     [CHR 0xC0, CHR 0xC1, CHR 0xC2, CHR 0xC3, CHR 0xC4, CHR 0xC5, CHR 0xC6, CHR 0xC7,
      CHR 0xC8, CHR 0xC9, CHR 0xCA, CHR 0xCB, CHR 0xCC, CHR 0xCD, CHR 0xCE, CHR 0xCF,
      CHR 0xD0, CHR 0xD1, CHR 0xD2, CHR 0xD3, CHR 0xD4, CHR 0xD5, CHR 0xD6, CHR 0xD8,
      CHR 0xD9, CHR 0xDA, CHR 0xDB, CHR 0xDC, CHR 0xDD, CHR 0xDE]"

definition latin1Lower :: string where
  "latin1Lower =
     [CHR 0xE0, CHR 0xE1, CHR 0xE2, CHR 0xE3, CHR 0xE4, CHR 0xE5, CHR 0xE6, CHR 0xE7,
      CHR 0xE8, CHR 0xE9, CHR 0xEA, CHR 0xEB, CHR 0xEC, CHR 0xED, CHR 0xEE, CHR 0xEF,
      CHR 0xF0, CHR 0xF1, CHR 0xF2, CHR 0xF3, CHR 0xF4, CHR 0xF5, CHR 0xF6, CHR 0xF8,
      CHR 0xF9, CHR 0xFA, CHR 0xFB, CHR 0xFC, CHR 0xFD, CHR 0xFE]"

definition toLowerChar :: "char \<Rightarrow> char" where
  "toLowerChar c =
     (case map_of (zip latin1Upper latin1Lower) c of
        Some l \<Rightarrow> l
      | None \<Rightarrow> asciiLower c)"

definition toLowerCase :: "string \<Rightarrow> string" where
  "toLowerCase s = map toLowerChar s"

text \<open>
  The patterns \<open>/\b(w1|...|wn)\b/i\<close> of the source: every alternative is a word of
  lower-case letters and single spaces, so the pattern matches exactly when one of the
  words occurs with no word character right before it and none right after it. Under
  the flag \<open>i\<close> an input code unit matches a pattern letter when its ASCII lower-case
  form is that letter.
\<close>

definition wordAt :: "string \<Rightarrow> bool \<Rightarrow> string \<Rightarrow> bool" where
  "wordAt w prevIsWord s =
     (\<not> prevIsWord \<and> take (length w) s = w \<and>
      (case drop (length w) s of [] \<Rightarrow> True | c # _ \<Rightarrow> \<not> isWordChar c))"

fun containsWord :: "string \<Rightarrow> bool \<Rightarrow> string \<Rightarrow> bool" where
  "containsWord w prevIsWord [] = False"
| "containsWord w prevIsWord (c # cs) =
     (wordAt w prevIsWord (c # cs) \<or> containsWord w (isWordChar c) cs)"

definition regexTest :: "string list \<Rightarrow> string \<Rightarrow> bool" where
  "regexTest alternatives s =
     list_ex (\<lambda>w. containsWord w False (map asciiLower s)) alternatives"

section \<open>SessionCorrelator: the text classifier\<close>

definition noisePatterns :: "string list list" where
  "noisePatterns =
     [[''hi'', ''hello'', ''hey'', ''gm'', ''morning'', ''hey'', ''thx'', ''thanks''],
      [''namaste'', ''pranam'', ''shubh prabhat'', ''kaise ho''],
      [''jay mataji'', ''ram ram'', ''sakti'', ''om''],
      [''suno'', ''bhai'', ''ji'', ''ok'', ''okay'', ''tike'']]"

definition isNoise :: "string \<Rightarrow> bool" where
  "isNoise text =
     (if text = [] \<or> length text < 2 then True
      else
        let cleanText = toLowerCase (trim text)
        in if length cleanText < 15
           then list_ex (\<lambda>pattern. regexTest pattern cleanText) noisePatterns
           else False)"

datatype slot = Name | Mobile | Address | Unknown

text \<open>\<open>/(\+91|0)?[6-9]\d{9}/\<close>: the optional prefix may match nothing, so the test
  succeeds exactly when a digit 6-9 is followed by nine digits somewhere in the text.\<close>

fun mobilePatternTest :: "string \<Rightarrow> bool" where
  "mobilePatternTest [] = False"
| "mobilePatternTest (c # cs) =
     ((c \<in> set ''6789'' \<and> 9 \<le> length cs \<and> list_all isDigit (take 9 cs))
      \<or> mobilePatternTest cs)"

text \<open>\<open>/^[A-Z][a-z]+(\s[A-Z][a-z]+){1,2}$/\<close>: \<open>capWord\<close> reads one capitalised word and
  returns what follows it (the run of lower-case letters is maximal, since none of
  \<open>\s\<close>, \<open>[A-Z]\<close> and the end of the input is a lower-case letter).\<close>

fun capWord :: "string \<Rightarrow> string option" where
  "capWord [] = None"
| "capWord (c # cs) =
     (if isUpper c \<and> cs \<noteq> [] \<and> isLower (hd cs) then Some (dropWhile isLower cs) else None)"

definition namePatternTest :: "string \<Rightarrow> bool" where
  "namePatternTest s =
     (case capWord s of
        None \<Rightarrow> False
      | Some [] \<Rightarrow> False
      | Some (sp # r1) \<Rightarrow>
          isSpace sp \<and>
          (case capWord r1 of
             None \<Rightarrow> False
           | Some [] \<Rightarrow> True
           | Some (sp2 # r2) \<Rightarrow> isSpace sp2 \<and> capWord r2 = Some []))"

definition addressKeywords :: "string list" where
  "addressKeywords =
     [''road'', ''st'', ''street'', ''apt'', ''apartment'', ''flat'', ''city'', ''dist'',
      ''nagar'', ''society'', ''colony'', ''landmark'', ''near'', ''opposite'']"

text \<open>\<open>text.split(/\s+/).length\<close>: one more than the number of maximal runs of white
  space (the pieces at the two ends may be empty).\<close>

fun splitCount :: "bool \<Rightarrow> string \<Rightarrow> nat" where
  "splitCount inRun [] = 1"
| "splitCount inRun (c # cs) =
     (if isSpace c \<and> \<not> inRun then 1 + splitCount True cs else splitCount (isSpace c) cs)"

definition identifySlot :: "string \<Rightarrow> slot" where
  "identifySlot text =
     (if mobilePatternTest text then Mobile
      else if namePatternTest (trim text) then Name
      else if regexTest addressKeywords text \<or> 5 < splitCount False text then Address
      else Unknown)"

section \<open>GroqClient\<close>

text \<open>
  The reply of the extraction service, after \<open>JSON.parse\<close>. The prompt fixes its
  shape: \<open>name\<close>, \<open>address\<close>, \<open>mobile\<close> and \<open>notes\<close> are strings, \<open>confidence\<close> is a
  number, and each may be \<open>null\<close> or missing (\<open>None\<close>). A finite JavaScript number
  is the real it denotes: the double that \<open>JSON.parse\<close> or a literal produces.
\<close>

record extractedData =
  j_name :: "string option"
  j_address :: "string option"
  j_mobile :: "string option"
  j_confidence :: "real option"
  j_notes :: "string option"

text \<open>One call of \<open>client.chat.completions.create\<close> and the handling of its reply inside
  the \<open>try\<close> block: the call rejects with an error message, the reply has no content,
  \<open>JSON.parse\<close> rejects the content with an error message, or the content parses.\<close>

datatype completion =
  CallFails string
| EmptyContent
| InvalidJson string
| Json extractedData

record storedMessage =
  sm_id :: string
  sm_text :: string
  sm_timestamp :: nat
  sm_receivedAt :: nat

record slotSet =
  slot_name :: "string option"
  slot_mobile :: "string option"
  slot_address :: "string option"

text \<open>The Finalized Session Record built by \<open>processSession\<close>.\<close>

record sessionData =
  sd_sessionId :: string
  sd_senderId :: string
  sd_senderNumber :: string
  sd_pushName :: string
  sd_messageCount :: nat
  sd_combinedText :: string
  sd_messages :: "storedMessage list"
  sd_slots :: slotSet
  sd_startedAt :: nat
  sd_completedAt :: nat
  sd_durationMs :: int

datatype status = Processed | LowConfidence | Failed

record extracted =
  ex_name :: "string option"
  ex_address :: "string option"
  ex_mobile :: "string option"
  ex_confidence :: real
  ex_notes :: "string option"

text \<open>The Processing Result. \<open>error\<close> and \<open>status\<close> are \<open>None\<close> where the object has no
  such property. The fields \<open>processedAt\<close>, \<open>llmModel\<close> and \<open>llmResponseTime\<close> (clock
  readings and a configuration string) are left out.\<close>

record parsedData =
  pd_sessionId :: string
  pd_senderNumber :: string
  pd_pushName :: string
  pd_extracted :: extracted
  pd_rawMessages :: "storedMessage list"
  pd_combinedText :: string
  pd_error :: "string option"
  pd_status :: "status option"

definition maxRetries :: nat where
  "maxRetries = 3"

text \<open>\<open>x || null\<close> on a string that may be \<open>null\<close> or missing: the empty string is falsy.\<close>

definition orNull :: "string option \<Rightarrow> string option" where
  "orNull x = (case x of None \<Rightarrow> None | Some s \<Rightarrow> if s = [] then None else Some s)"

definition normalizePhoneNumber :: "string option \<Rightarrow> string option" where
  "normalizePhoneNumber phone =
     (case phone of
        None \<Rightarrow> None
      | Some p \<Rightarrow>
          if p = [] then None
          else
            let normalized = filter (\<lambda>c. isDigit c \<or> c = CHR ''+'') p;
                normalized = (if take 1 normalized = ''+'' then drop 1 normalized else normalized)
            in if length normalized < 10 \<or> 15 < length normalized then Some p
               else Some normalized)"

text \<open>The body of the \<open>try\<close> block up to the parsed reply: \<open>Inl\<close> carries the message of
  the error that the \<open>catch\<close> block receives.\<close>

definition tryAttempt :: "completion \<Rightarrow> string + extractedData" where
  "tryAttempt c =
     (case c of
        CallFails msg \<Rightarrow> Inl msg
      | EmptyContent \<Rightarrow> Inl ''Empty response from LLM''
      | InvalidJson msg \<Rightarrow> Inl msg
      | Json j \<Rightarrow> Inr j)"

definition successResult :: "sessionData \<Rightarrow> extractedData \<Rightarrow> parsedData" where
  "successResult session j =
     \<lparr> pd_sessionId = sd_sessionId session,
       pd_senderNumber = sd_senderNumber session,
       pd_pushName = sd_pushName session,
       pd_extracted =
         \<lparr> ex_name = orNull (j_name j),
           ex_address = orNull (j_address j),
           ex_mobile = normalizePhoneNumber (j_mobile j),
           ex_confidence = (case j_confidence j of None \<Rightarrow> 0.5 | Some c \<Rightarrow> if c = 0 then 0.5 else c),
           ex_notes = orNull (j_notes j) \<rparr>,
       pd_rawMessages = sd_messages session,
       pd_combinedText = sd_combinedText session,
       pd_error = None,
       pd_status = None \<rparr>"

text \<open>\<open>lastError?.message\<close> is \<open>undefined\<close> while no attempt has failed; the template
  string then prints the word.\<close>

definition exhaustedResult :: "sessionData \<Rightarrow> string option \<Rightarrow> parsedData" where
  "exhaustedResult session lastError =
     \<lparr> pd_sessionId = sd_sessionId session,
       pd_senderNumber = sd_senderNumber session,
       pd_pushName = sd_pushName session,
       pd_extracted =
         \<lparr> ex_name = None,
           ex_address = None,
           ex_mobile = None,
           ex_confidence = 0,
           ex_notes = Some (''Extraction failed: '' @
                         (case lastError of None \<Rightarrow> ''undefined'' | Some msg \<Rightarrow> msg)) \<rparr>,
       pd_rawMessages = sd_messages session,
       pd_combinedText = sd_combinedText session,
       pd_error = lastError,
       pd_status = Some Failed \<rparr>"

text \<open>The retry loop \<open>for (attempt = 1; attempt <= maxRetries; attempt++)\<close>. The
  service is a function from the attempt number to what that call does; the result
  comes with the back-off delays (in ms) that were waited.\<close>

function extractLoop ::
  "(nat \<Rightarrow> completion) \<Rightarrow> sessionData \<Rightarrow> nat \<Rightarrow> string option \<Rightarrow> nat list \<Rightarrow> parsedData \<times> nat list"
where
  "extractLoop llm session attempt lastError delays =
     (if attempt \<le> maxRetries then
        (case tryAttempt (llm attempt) of
           Inr j \<Rightarrow> (successResult session j, delays)
         | Inl msg \<Rightarrow>
             extractLoop llm session (attempt + 1) (Some msg)
               (if attempt < maxRetries then delays @ [2 ^ attempt * 1000] else delays))
      else (exhaustedResult session lastError, delays))"
  by pat_completeness auto
termination
  by (relation "measure (\<lambda>(llm, session, attempt, lastError, delays). maxRetries + 1 - attempt)") auto

definition extractContactInfo :: "(nat \<Rightarrow> completion) \<Rightarrow> sessionData \<Rightarrow> parsedData \<times> nat list" where
  "extractContactInfo llm session = extractLoop llm session 1 None []"

section \<open>MessageProcessor\<close>

text \<open>
  The collaborators of \<open>process\<close>: the extraction service, \<open>database.saveContact\<close>
  (it returns the contact id or throws) and \<open>kafkaClient.sendParsedMessage\<close> (it
  throws when the producer is not connected or the send fails; \<open>None\<close> is success).
  \<open>kafkaClient.sendToDeadLetter\<close> catches its own errors, and the broadcasts of the
  WebSocket manager only write to the sockets that are open; neither throws.
\<close>

record env =
  llm :: "nat \<Rightarrow> completion"
  saveContact :: "parsedData \<Rightarrow> string + nat"
  sendParsedMessage :: "parsedData \<Rightarrow> string option"

text \<open>The calls that \<open>process\<close> makes on its collaborators, in order.\<close>

datatype effect =
  Sleep nat
| SaveContact parsedData
| SendParsedMessage parsedData
| BroadcastNewContact parsedData nat
| SendToDeadLetter sessionData string
| BroadcastStatus string string

text \<open>JavaScript truthiness of \<open>parsedData.error\<close>: a missing property and the empty
  string are falsy.\<close>

definition truthy :: "string option \<Rightarrow> bool" where
  "truthy x = (case x of None \<Rightarrow> False | Some s \<Rightarrow> s \<noteq> [])"

text \<open>The literal \<open>0.3\<close> of \<open>process\<close> is a double: the one nearest to three tenths,
  5404319552844595 divided by the 54th power of 2, a little below it. The comparison of two doubles is
  exact, so \<open>confidence < 0.3\<close> compares the confidence with this number.\<close>

definition pointThree :: real where
  "pointThree = 5404319552844595 / 18014398509481984"

definition classify :: "parsedData \<Rightarrow> parsedData" where
  "classify parsed =
     parsed\<lparr> pd_status :=
       Some (if truthy (pd_error parsed) then Failed
             else if ex_confidence (pd_extracted parsed) < pointThree then LowConfidence
             else Processed) \<rparr>"

definition failedData :: "sessionData \<Rightarrow> string \<Rightarrow> parsedData" where
  "failedData session msg =
     \<lparr> pd_sessionId = sd_sessionId session,
       pd_senderNumber = sd_senderNumber session,
       pd_pushName = sd_pushName session,
       pd_extracted =
         \<lparr> ex_name = None, ex_address = None, ex_mobile = None, ex_confidence = 0,
           ex_notes = Some (''Processing error: '' @ msg) \<rparr>,
       pd_rawMessages = sd_messages session,
       pd_combinedText = sd_combinedText session,
       pd_error = Some msg,
       pd_status = Some Failed \<rparr>"

text \<open>The \<open>catch\<close> block of \<open>process\<close>, entered with the message of the error caught
  and the calls made so far. \<open>Inl\<close> is the error the call of \<open>process\<close> rejects with.\<close>

definition catchBlock ::
  "env \<Rightarrow> sessionData \<Rightarrow> string \<Rightarrow> effect list \<Rightarrow> (string + parsedData) \<times> effect list"
where
  "catchBlock e session msg calls =
     (case saveContact e (failedData session msg) of
        Inl msg' \<Rightarrow> (Inl msg', calls @ [SaveContact (failedData session msg)])
      | Inr _ \<Rightarrow>
          (Inl msg,
           calls @ [SaveContact (failedData session msg),
                   SendToDeadLetter session msg,
                   BroadcastStatus (''Failed to process message from '' @ sd_senderNumber session)
                     ''error'']))"

definition process :: "env \<Rightarrow> sessionData \<Rightarrow> (string + parsedData) \<times> effect list" where
  "process e session =
     (let (extraction, delays) = extractContactInfo (llm e) session;
          parsed = classify extraction;
          waited = map Sleep delays
      in case saveContact e parsed of
           Inl msg \<Rightarrow> catchBlock e session msg (waited @ [SaveContact parsed])
         | Inr contactId \<Rightarrow>
             (case sendParsedMessage e parsed of
                Some msg \<Rightarrow>
                  catchBlock e session msg (waited @ [SaveContact parsed, SendParsedMessage parsed])
              | None \<Rightarrow>
                  (Inr parsed,
                   waited @ [SaveContact parsed, SendParsedMessage parsed,
                             BroadcastNewContact parsed contactId])))"

section \<open>SessionCorrelator: sessions, timers and finalisation\<close>

record message =
  msg_id :: string
  msg_senderId :: string
  msg_senderNumber :: string
  msg_pushName :: string
  msg_text :: string
  msg_timestamp :: nat

record session =
  senderId :: string
  senderNumber :: string
  pushName :: string
  messages :: "storedMessage list"
  slots :: slotSet
  startedAt :: nat
  lastMessageAt :: nat

text \<open>A timer that \<open>setTimeout\<close> has scheduled and that has neither fired nor been
  cleared: its handle, and the sender and the delay its callback was created with.\<close>

record timer =
  t_handle :: nat
  t_senderId :: string
  t_timeoutMs :: nat

text \<open>
  The correlator. The two \<open>Map\<close>s are association lists in insertion order
  (\<open>AList.update\<close> replaces the value of a key in place and appends a new key, as
  \<open>Map.set\<close> does); the two \<open>Set\<close>s are lists in insertion order. With them come the
  parts of the runtime that the correlator acts on: the pending timers, the next free
  timer handle, and the records passed to \<open>emit('session', ...)\<close>, oldest first.
\<close>

record correlator =
  sessions :: "(string \<times> session) list"
  timers :: "(string \<times> nat) list"
  processedSessions :: "string list"
  processedMessageIds :: "string list"
  timeoutMs :: nat
  maxMessages :: nat
  pendingTimers :: "timer list"
  nextHandle :: nat
  emitted :: "sessionData list"

definition constructor :: "nat \<Rightarrow> nat \<Rightarrow> correlator" where
  "constructor timeoutSeconds maxMessagesPerSession =
     \<lparr> sessions = [], timers = [], processedSessions = [], processedMessageIds = [],
       timeoutMs = timeoutSeconds * 1000, maxMessages = maxMessagesPerSession,
       pendingTimers = [], nextHandle = 0, emitted = [] \<rparr>"

fun getSlot :: "slotSet \<Rightarrow> slot \<Rightarrow> string option" where
  "getSlot s Name = slot_name s"
| "getSlot s Mobile = slot_mobile s"
| "getSlot s Address = slot_address s"
| "getSlot s Unknown = None"

fun setSlot :: "slotSet \<Rightarrow> slot \<Rightarrow> string \<Rightarrow> slotSet" where
  "setSlot s Name v = s\<lparr>slot_name := Some v\<rparr>"
| "setSlot s Mobile v = s\<lparr>slot_mobile := Some v\<rparr>"
| "setSlot s Address v = s\<lparr>slot_address := Some v\<rparr>"
| "setSlot s Unknown v = s"

text \<open>The decimal digits of a number, as a template string prints a clock reading.\<close>

fun showNat :: "nat \<Rightarrow> string" where
  "showNat n =
     (if n < 10 then [''0123456789'' ! n]
      else showNat (n div 10) @ [''0123456789'' ! (n mod 10)])"

definition mkSessionId :: "string \<Rightarrow> nat \<Rightarrow> string" where
  "mkSessionId sid started = sid @ ''_'' @ showNat started"

fun joinLines :: "string list \<Rightarrow> string" where
  "joinLines [] = []"
| "joinLines [x] = x"
| "joinLines (x # y # ys) = x @ [CHR 0x0A] @ joinLines (y # ys)"

definition clearTimeout :: "nat \<Rightarrow> timer list \<Rightarrow> timer list" where
  "clearTimeout h pending = filter (\<lambda>t. t_handle t \<noteq> h) pending"

definition resetTimer :: "correlator \<Rightarrow> string \<Rightarrow> nat \<Rightarrow> correlator" where
  "resetTimer st sid ms =
     (let pending = (case map_of (timers st) sid of
                       None \<Rightarrow> pendingTimers st
                     | Some h \<Rightarrow> clearTimeout h (pendingTimers st))
      in st\<lparr> pendingTimers :=
                pending @ [\<lparr> t_handle = nextHandle st, t_senderId = sid, t_timeoutMs = ms \<rparr>],
              timers := AList.update sid (nextHandle st) (timers st),
              nextHandle := nextHandle st + 1 \<rparr>)"

definition buildSessionData :: "string \<Rightarrow> session \<Rightarrow> nat \<Rightarrow> sessionData" where
  "buildSessionData sid s now =
     \<lparr> sd_sessionId = mkSessionId sid (startedAt s),
       sd_senderId = senderId s,
       sd_senderNumber = senderNumber s,
       sd_pushName = pushName s,
       sd_messageCount = length (messages s),
       sd_combinedText = joinLines (map sm_text (messages s)),
       sd_messages = messages s,
       sd_slots = slots s,
       sd_startedAt = startedAt s,
       sd_completedAt = now,
       sd_durationMs = int now - int (startedAt s) \<rparr>"

text \<open>
  \<open>processSession\<close>. Every reading of \<open>Date.now()\<close> during one synchronous call is the
  argument \<open>now\<close>. The cache of finalised session ids is a \<open>Set\<close>, so deleting its 500
  oldest entries leaves the list without its first 500.
\<close>

definition processSession :: "correlator \<Rightarrow> string \<Rightarrow> nat \<Rightarrow> correlator" where
  "processSession st sid now =
     (case map_of (sessions st) sid of
        None \<Rightarrow> st
      | Some s \<Rightarrow>
          if messages s = [] then st
          else if mkSessionId sid (startedAt s) \<in> set (processedSessions st)
          then st\<lparr> sessions := AList.delete sid (sessions st) \<rparr>
          else
            let marked = processedSessions st @ [mkSessionId sid (startedAt s)]
            in st\<lparr> processedSessions := (if 1000 < length marked then drop 500 marked else marked),
                    pendingTimers := (case map_of (timers st) sid of
                                        None \<Rightarrow> pendingTimers st
                                      | Some h \<Rightarrow> clearTimeout h (pendingTimers st)),
                    timers := AList.delete sid (timers st),
                    emitted := emitted st @ [buildSessionData sid s now],
                    sessions := AList.delete sid (sessions st) \<rparr>)"

definition newSession :: "message \<Rightarrow> nat \<Rightarrow> session" where
  "newSession m now =
     \<lparr> senderId = msg_senderId m,
       senderNumber = msg_senderNumber m,
       pushName = msg_pushName m,
       messages = [],
       slots = \<lparr> slot_name = None, slot_mobile = None, slot_address = None \<rparr>,
       startedAt = now,
       lastMessageAt = now \<rparr>"

definition adaptiveTimeoutMs :: "correlator \<Rightarrow> session \<Rightarrow> nat" where
  "adaptiveTimeoutMs st s =
     (let filledSlots =
            length (filter (\<lambda>v. v \<noteq> None)
                      [slot_name (slots s), slot_mobile (slots s), slot_address (slots s)]);
          isHighlyComplete = (truthy (slot_name (slots s)) \<and> truthy (slot_mobile (slots s)))
      in if isHighlyComplete then 10000
         else if 1 \<le> filledSlots then 30000
         else timeoutMs st)"

text \<open>The steps "update slots" and "add message to session" of \<open>addMessage\<close>, on the
  session object that the variable \<open>session\<close> refers to.\<close>

definition joinSession :: "session \<Rightarrow> slot \<Rightarrow> message \<Rightarrow> nat \<Rightarrow> session" where
  "joinSession s slot m now =
     s\<lparr> slots := (if slot \<noteq> Unknown then setSlot (slots s) slot (msg_text m) else slots s),
        messages := messages s @
          [\<lparr> sm_id = msg_id m, sm_text = msg_text m,
             sm_timestamp = msg_timestamp m, sm_receivedAt = now \<rparr>],
        lastMessageAt := now \<rparr>"

text \<open>
  \<open>addMessage\<close> from the slot detection to the call of \<open>resetTimer\<close>: the state after
  the timer step, and the session object that the variable \<open>session\<close> then refers
  to (the object stored under the sender).
\<close>

definition accumulate :: "correlator \<Rightarrow> message \<Rightarrow> nat \<Rightarrow> correlator \<times> session" where
  "accumulate st m now =
     (let sid = msg_senderId m;
          slot = identifySlot (msg_text m);
          found = map_of (sessions st) sid;
          collision = (case found of
                         None \<Rightarrow> False
                       | Some s \<Rightarrow> slot \<noteq> Unknown \<and> truthy (getSlot (slots s) slot));
          st1 = (if collision then processSession st sid now else st);
          kept = (if collision then None else found);
          st2 = (case kept of
                   None \<Rightarrow> st1\<lparr> sessions := AList.update sid (newSession m now) (sessions st1) \<rparr>
                 | Some s \<Rightarrow> st1);
          s0 = (case kept of None \<Rightarrow> newSession m now | Some s \<Rightarrow> s);
          s1 = joinSession s0 slot m now;
          st3 = st2\<lparr> sessions := AList.update sid s1 (sessions st2) \<rparr>
      in (resetTimer st3 sid (adaptiveTimeoutMs st3 s1), s1))"

text \<open>The cache of seen message ids is a \<open>Set\<close>, so deleting its 5000 oldest entries
  leaves the list without its first 5000.\<close>

definition addMessage :: "correlator \<Rightarrow> message \<Rightarrow> nat \<Rightarrow> correlator" where
  "addMessage st m now =
     (if msg_id m \<in> set (processedMessageIds st) then st
      else
        let ids = processedMessageIds st @ [msg_id m];
            st1 = st\<lparr> processedMessageIds := (if 10000 < length ids then drop 5000 ids else ids) \<rparr>
        in if isNoise (msg_text m) then st1
           else
             let (st2, s) = accumulate st1 m now
             in if maxMessages st2 \<le> length (messages s)
                then processSession st2 (msg_senderId m) now
                else st2)"

definition removeMessage :: "correlator \<Rightarrow> string \<Rightarrow> string \<Rightarrow> correlator" where
  "removeMessage st sid messageId =
     (case map_of (sessions st) sid of
        None \<Rightarrow> st
      | Some s \<Rightarrow>
          let remaining = filter (\<lambda>m. sm_id m \<noteq> messageId) (messages s);
              st1 = st\<lparr> sessions := AList.update sid (s\<lparr> messages := remaining \<rparr>) (sessions st) \<rparr>
          in if length remaining < length (messages s) \<and> remaining = []
             then st1\<lparr> sessions := AList.delete sid (sessions st1),
                       pendingTimers := (case map_of (timers st1) sid of
                                           None \<Rightarrow> pendingTimers st1
                                         | Some h \<Rightarrow> clearTimeout h (pendingTimers st1)),
                       timers := AList.delete sid (timers st1) \<rparr>
             else st1)"

text \<open>A pending timer fires: the runtime retires it and runs its callback.\<close>

definition fireTimer :: "correlator \<Rightarrow> nat \<Rightarrow> nat \<Rightarrow> correlator" where
  "fireTimer st h now =
     (case find (\<lambda>t. t_handle t = h) (pendingTimers st) of
        None \<Rightarrow> st
      | Some t \<Rightarrow>
          processSession (st\<lparr> pendingTimers := clearTimeout h (pendingTimers st) \<rparr>)
            (t_senderId t) now)"

text \<open>
  \<open>flushAll\<close>: the iterator of \<open>sessions.keys()\<close> visits, in insertion order, every key
  that is still in the \<open>Map\<close> when the iterator reaches it. The loop body adds no key,
  so the keys visited are among those present at the start.
\<close>

fun flushLoop :: "string list \<Rightarrow> correlator \<Rightarrow> nat \<Rightarrow> correlator" where
  "flushLoop [] st now = st"
| "flushLoop (sid # rest) st now =
     (if sid \<in> fst ` set (sessions st) then flushLoop rest (processSession st sid now) now
      else flushLoop rest st now)"

definition flushAll :: "correlator \<Rightarrow> nat \<Rightarrow> correlator" where
  "flushAll st now = flushLoop (map fst (sessions st)) st now"

text \<open>What can happen to the correlator, each with the clock reading of the call.\<close>

datatype event =
  AddMessage message nat
| RemoveMessage string string
| TimerFires nat nat
| FlushAll nat

fun step :: "correlator \<Rightarrow> event \<Rightarrow> correlator" where
  "step st (AddMessage m now) = addMessage st m now"
| "step st (RemoveMessage sid messageId) = removeMessage st sid messageId"
| "step st (TimerFires h now) = fireTimer st h now"
| "step st (FlushAll now) = flushAll st now"

definition run :: "correlator \<Rightarrow> event list \<Rightarrow> correlator" where
  "run st evs = foldl step st evs"

section \<open>Notions used in the proofs\<close>

text \<open>The cache of seen message ids after \<open>addMessage\<close> has been called with a message
  whose id is \<open>i\<close>.\<close>

definition seenAfter :: "string list \<Rightarrow> string \<Rightarrow> string list" where
  "seenAfter ids i =
     (if i \<in> set ids then ids
      else if 10000 < length (ids @ [i]) then drop 5000 (ids @ [i])
      else ids @ [i])"

fun addedId :: "event \<Rightarrow> string list" where
  "addedId (AddMessage m now) = [msg_id m]"
| "addedId (RemoveMessage sid messageId) = []"
| "addedId (TimerFires h now) = []"
| "addedId (FlushAll now) = []"

text \<open>The ids of the messages that a sequence of events submits to \<open>addMessage\<close>.\<close>

definition addedIds :: "event list \<Rightarrow> string list" where
  "addedIds evs = concat (map addedId evs)"

text \<open>\<open>i\<close> is one of the \<open>n\<close> newest entries of a cache.\<close>

definition amongLast :: "nat \<Rightarrow> string \<Rightarrow> string list \<Rightarrow> bool" where
  "amongLast n i ids = (i \<in> set (drop (length ids - n) ids))"

text \<open>
  The properties of a correlator that every call keeps: no sender has two sessions, a
  stored session has a message and its filled slots hold non-empty text, and a pending
  timer is the one registered for its sender in \<open>timers\<close>.
\<close>

definition slotsOk :: "slotSet \<Rightarrow> bool" where
  "slotsOk sl = (slot_name sl \<noteq> Some [] \<and> slot_mobile sl \<noteq> Some [] \<and> slot_address sl \<noteq> Some [])"

definition sessionsOk :: "correlator \<Rightarrow> bool" where
  "sessionsOk st =
     (distinct (map fst (sessions st)) \<and>
      list_all (\<lambda>(sid, s). messages s \<noteq> [] \<and> slotsOk (slots s)) (sessions st))"

definition timersOk :: "correlator \<Rightarrow> bool" where
  "timersOk st =
     list_all (\<lambda>t. map_of (timers st) (t_senderId t) = Some (t_handle t)) (pendingTimers st)"

definition wellFormed :: "correlator \<Rightarrow> bool" where
  "wellFormed st = (sessionsOk st \<and> timersOk st)"

text \<open>The slot-collision test of \<open>addMessage\<close>, and the correlator after it: the sender's
  session has been finalised when the test succeeds.\<close>

definition collides :: "correlator \<Rightarrow> message \<Rightarrow> bool" where
  "collides st m =
     (case map_of (sessions st) (msg_senderId m) of
        None \<Rightarrow> False
      | Some s \<Rightarrow> identifySlot (msg_text m) \<noteq> Unknown \<and>
                  truthy (getSlot (slots s) (identifySlot (msg_text m))))"

definition afterCollisionCheck :: "correlator \<Rightarrow> message \<Rightarrow> nat \<Rightarrow> correlator" where
  "afterCollisionCheck st m now =
     (if collides st m then processSession st (msg_senderId m) now else st)"

text \<open>The session that the message joins: the sender's session when there is one and
  the message does not collide with it, a new session otherwise.\<close>

definition joinedSession :: "correlator \<Rightarrow> message \<Rightarrow> nat \<Rightarrow> session" where
  "joinedSession st m now =
     joinSession
       (case (if collides st m then None else map_of (sessions st) (msg_senderId m)) of
          None \<Rightarrow> newSession m now
        | Some s \<Rightarrow> s)
       (identifySlot (msg_text m)) m now"

section \<open>Concrete inputs\<close>

text \<open>A finalised session of two messages, and collaborators whose sinks work.\<close>

definition exampleSession :: sessionData where
  "exampleSession =
     \<lparr> sd_sessionId = ''919800000001@s.whatsapp.net_1700000000000'',
       sd_senderId = ''919800000001@s.whatsapp.net'',
       sd_senderNumber = ''919800000001'',
       sd_pushName = ''Rahul'',
       sd_messageCount = 2,
       sd_combinedText = ''Rahul Sharma'' @ [CHR 0x0A] @ ''9876543210'',
       sd_messages =
         [\<lparr> sm_id = ''A1'', sm_text = ''Rahul Sharma'', sm_timestamp = 1700000000000,
             sm_receivedAt = 1700000000000 \<rparr>,
          \<lparr> sm_id = ''A2'', sm_text = ''9876543210'', sm_timestamp = 1700000001000,
             sm_receivedAt = 1700000001000 \<rparr>],
       sd_slots = \<lparr> slot_name = Some ''Rahul Sharma'', slot_mobile = Some ''9876543210'',
                    slot_address = None \<rparr>,
       sd_startedAt = 1700000000000,
       sd_completedAt = 1700000011000,
       sd_durationMs = 11000 \<rparr>"

definition workingSinks :: "(nat \<Rightarrow> completion) \<Rightarrow> env" where
  "workingSinks service =
     \<lparr> llm = service, saveContact = (\<lambda>parsed. Inr 1), sendParsedMessage = (\<lambda>parsed. None) \<rparr>"

text \<open>A service whose first call times out and whose second call answers with
  confidence 0.\<close>

definition flakyService :: "nat \<Rightarrow> completion" where
  "flakyService attempt =
     (if attempt = 1 then CallFails ''Request timed out.''
      else Json \<lparr> j_name = Some ''Rahul Sharma'', j_address = None,
                  j_mobile = Some ''+91 98765 43210'', j_confidence = Some 0,
                  j_notes = None \<rparr>)"

text \<open>Messages of one sender, the correlator as configured by default, and its state
  after the first message.\<close>

definition firstMessage :: message where
  "firstMessage =
     \<lparr> msg_id = ''A1'', msg_senderId = ''919800000001@s.whatsapp.net'',
       msg_senderNumber = ''919800000001'', msg_pushName = ''Agent'',
       msg_text = ''Rahul Sharma'', msg_timestamp = 1700000000000 \<rparr>"

definition greeting :: message where
  "greeting = firstMessage\<lparr> msg_id := ''G1'', msg_text := ''hi'' \<rparr>"

definition afterFirst :: correlator where
  "afterFirst =
     \<lparr> sessions =
         [(''919800000001@s.whatsapp.net'',
           \<lparr> senderId = ''919800000001@s.whatsapp.net'', senderNumber = ''919800000001'',
             pushName = ''Agent'',
             messages = [\<lparr> sm_id = ''A1'', sm_text = ''Rahul Sharma'',
                            sm_timestamp = 1700000000000, sm_receivedAt = 5 \<rparr>],
             slots = \<lparr> slot_name = Some ''Rahul Sharma'', slot_mobile = None,
                       slot_address = None \<rparr>,
             startedAt = 5, lastMessageAt = 5 \<rparr>)],
       timers = [(''919800000001@s.whatsapp.net'', 0)],
       processedSessions = [],
       processedMessageIds = [''A1''],
       timeoutMs = 120000, maxMessages = 10,
       pendingTimers = [\<lparr> t_handle = 0, t_senderId = ''919800000001@s.whatsapp.net'',
                          t_timeoutMs = 30000 \<rparr>],
       nextHandle = 1, emitted = [] \<rparr>"

text \<open>Ten thousand greetings with ids of their own (\<open>x\<close>, \<open>xx\<close>, \<open>xxx\<close>, ...).\<close>

definition floodId :: "nat \<Rightarrow> string" where
  "floodId n = replicate (Suc n) CHR ''x''"

definition floodEvent :: "nat \<Rightarrow> event" where
  "floodEvent n = AddMessage (greeting\<lparr> msg_id := floodId n \<rparr>) 6"

definition flood :: "event list" where
  "flood = map floodEvent [0..<10000]"

text \<open>The sender's second message, a phone number.\<close>

definition secondMessage :: message where
  "secondMessage = firstMessage\<lparr> msg_id := ''A2'', msg_text := ''9876543210'' \<rparr>"

text \<open>Three phone numbers sent by the same sender.\<close>

definition numberOne :: message where
  "numberOne = firstMessage\<lparr> msg_id := ''N1'', msg_text := ''9876543210'' \<rparr>"

definition numberTwo :: message where
  "numberTwo = firstMessage\<lparr> msg_id := ''N2'', msg_text := ''9876543211'' \<rparr>"

definition numberThree :: message where
  "numberThree = firstMessage\<lparr> msg_id := ''N3'', msg_text := ''9876543212'' \<rparr>"

text \<open>The correlator after the first number, and after the second number when it
  arrives within the same millisecond: the first session has been emitted, and the
  session of the second number has the same start time, hence the same session id.\<close>

definition afterNumberOne :: correlator where
  "afterNumberOne =
     \<lparr> sessions =
         [(''919800000001@s.whatsapp.net'',
           \<lparr> senderId = ''919800000001@s.whatsapp.net'', senderNumber = ''919800000001'',
             pushName = ''Agent'',
             messages = [\<lparr> sm_id = ''N1'', sm_text = ''9876543210'',
                            sm_timestamp = 1700000000000, sm_receivedAt = 5 \<rparr>],
             slots = \<lparr> slot_name = None, slot_mobile = Some ''9876543210'',
                       slot_address = None \<rparr>,
             startedAt = 5, lastMessageAt = 5 \<rparr>)],
       timers = [(''919800000001@s.whatsapp.net'', 0)],
       processedSessions = [],
       processedMessageIds = [''N1''],
       timeoutMs = 120000, maxMessages = 10,
       pendingTimers = [\<lparr> t_handle = 0, t_senderId = ''919800000001@s.whatsapp.net'',
                          t_timeoutMs = 30000 \<rparr>],
       nextHandle = 1, emitted = [] \<rparr>"

definition afterNumberTwo :: correlator where
  "afterNumberTwo =
     \<lparr> sessions =
         [(''919800000001@s.whatsapp.net'',
           \<lparr> senderId = ''919800000001@s.whatsapp.net'', senderNumber = ''919800000001'',
             pushName = ''Agent'',
             messages = [\<lparr> sm_id = ''N2'', sm_text = ''9876543211'',
                            sm_timestamp = 1700000000000, sm_receivedAt = 5 \<rparr>],
             slots = \<lparr> slot_name = None, slot_mobile = Some ''9876543211'',
                       slot_address = None \<rparr>,
             startedAt = 5, lastMessageAt = 5 \<rparr>)],
       timers = [(''919800000001@s.whatsapp.net'', 1)],
       processedSessions = [''919800000001@s.whatsapp.net_5''],
       processedMessageIds = [''N1'', ''N2''],
       timeoutMs = 120000, maxMessages = 10,
       pendingTimers = [\<lparr> t_handle = 1, t_senderId = ''919800000001@s.whatsapp.net'',
                          t_timeoutMs = 30000 \<rparr>],
       nextHandle = 2,
       emitted =
         [\<lparr> sd_sessionId = ''919800000001@s.whatsapp.net_5'',
            sd_senderId = ''919800000001@s.whatsapp.net'',
            sd_senderNumber = ''919800000001'', sd_pushName = ''Agent'',
            sd_messageCount = 1, sd_combinedText = ''9876543210'',
            sd_messages = [\<lparr> sm_id = ''N1'', sm_text = ''9876543210'',
                              sm_timestamp = 1700000000000, sm_receivedAt = 5 \<rparr>],
            sd_slots = \<lparr> slot_name = None, slot_mobile = Some ''9876543210'',
                         slot_address = None \<rparr>,
            sd_startedAt = 5, sd_completedAt = 5, sd_durationMs = 0 \<rparr>] \<rparr>"

section \<open>The processing stage\<close>

declare extractLoop.simps [simp del]

lemma extractLoop_fail_step:
  "attempt \<le> maxRetries \<Longrightarrow> tryAttempt (svc attempt) = Inl msg \<Longrightarrow>
   extractLoop svc s attempt le ds =
     extractLoop svc s (attempt + 1) (Some msg)
       (if attempt < maxRetries then ds @ [2 ^ attempt * 1000] else ds)"
  by (subst extractLoop.simps) simp

lemma extractLoop_success_step:
  "attempt \<le> maxRetries \<Longrightarrow> tryAttempt (svc attempt) = Inr j \<Longrightarrow>
   extractLoop svc s attempt le ds = (successResult s j, ds)"
  by (subst extractLoop.simps) simp

lemma extractLoop_exhausted:
  "maxRetries < attempt \<Longrightarrow> extractLoop svc s attempt le ds = (exhaustedResult s le, ds)"
  by (subst extractLoop.simps) simp

text \<open>Three failures in a row: the loop gives up after waiting 2 s and 4 s, with the
  message of the third error.\<close>

lemma extractContactInfo_all_fail:
  assumes "tryAttempt (svc 1) = Inl m1" "tryAttempt (svc 2) = Inl m2" "tryAttempt (svc 3) = Inl m3"
  shows "extractContactInfo svc s = (exhaustedResult s (Some m3), [2000, 4000])"
proof -
  have "extractLoop svc s 1 None [] = extractLoop svc s 2 (Some m1) [2000]"
    using assms(1) by (subst extractLoop.simps) (simp add: maxRetries_def numeral_2_eq_2)
  also have "\<dots> = extractLoop svc s 3 (Some m2) [2000, 4000]"
    using assms(2) by (subst extractLoop.simps) (simp add: maxRetries_def numeral_3_eq_3 numeral_2_eq_2)
  also have "\<dots> = extractLoop svc s 4 (Some m3) [2000, 4000]"
    using assms(3) by (subst extractLoop.simps) (simp add: maxRetries_def)
  also have "\<dots> = (exhaustedResult s (Some m3), [2000, 4000])"
    by (rule extractLoop_exhausted) (simp add: maxRetries_def)
  finally show ?thesis by (simp add: extractContactInfo_def)
qed

text \<open>The first attempt that parses ends the loop with its result.\<close>

lemma extractLoop_first_success:
  "a \<le> k \<Longrightarrow> k \<le> maxRetries \<Longrightarrow>
   \<forall>i. a \<le> i \<and> i < k \<longrightarrow> (\<exists>m. tryAttempt (svc i) = Inl m) \<Longrightarrow>
   tryAttempt (svc k) = Inr j \<Longrightarrow> fst (extractLoop svc s a le ds) = successResult s j"
proof (induction "k - a" arbitrary: a le ds)
  case 0
  then have "a = k" by simp
  with 0 show ?case by (simp add: extractLoop_success_step)
next
  case (Suc d)
  then have lt: "a < k" by simp
  with Suc.prems obtain m where m: "tryAttempt (svc a) = Inl m" by blast
  have a: "a \<le> maxRetries" using lt Suc.prems by simp
  have "fst (extractLoop svc s (a + 1) (Some m)
               (if a < maxRetries then ds @ [2 ^ a * 1000] else ds)) = successResult s j"
    using Suc.hyps(1) [of "a + 1"] Suc.hyps(2) Suc.prems lt by simp
  then show ?case using a m by (simp add: extractLoop_fail_step)
qed

lemma process_saves_classified:
  "SaveContact (classify (fst (extractContactInfo (llm e) session))) \<in> set (snd (process e session))"
  by (simp add: process_def catchBlock_def Let_def split: prod.splits sum.splits option.splits)

text \<open>The threshold is the double of the literal: it lies below three tenths by less
  than one part in the 54th power of 2, above 0 and below a half.\<close>

lemma pointThree_value:
  "pointThree * 2 ^ 54 = 5404319552844595" "pointThree < 3 / 10" "3 / 10 - pointThree < 1 / 2 ^ 54"
  by (simp_all add: pointThree_def)

lemma pointThree_pos [simp]: "0 < pointThree"
  by (simp add: pointThree_def)

lemma pointThree_half [simp]: "\<not> 1 / 2 < pointThree" "\<not> 1 < pointThree * 2"
  by (simp_all add: pointThree_def)

lemma classify_status:
  "pd_status (classify parsed) =
     Some (if truthy (pd_error parsed) then Failed
           else if ex_confidence (pd_extracted parsed) < pointThree then LowConfidence
           else Processed)"
  by (simp add: classify_def)

text \<open>The classification where the claim's cases are told apart by the code: a failure
  with a non-empty message, and the two sides of the threshold.\<close>

lemma classify_failed:
  "pd_error parsed = Some msg \<Longrightarrow> msg \<noteq> [] \<Longrightarrow> pd_status (classify parsed) = Some Failed"
  by (simp add: classify_def truthy_def)

lemma classify_boundary:
  assumes "pd_error parsed = None"
  shows "ex_confidence (pd_extracted parsed) = pointThree \<Longrightarrow>
      pd_status (classify parsed) = Some Processed"
    and "ex_confidence (pd_extracted parsed) = 0.25 \<Longrightarrow>
      pd_status (classify parsed) = Some LowConfidence"
  using assms by (simp_all add: classify_def truthy_def) (simp add: pointThree_def)

text \<open>
  C1 (amended). When the extraction call fails on all three attempts and the last error
  has a non-empty message, \<open>process\<close> waits 2 s and 4 s between the attempts and then
  hands \<open>saveContact\<close> a result with status \<open>failed\<close>, name, address and mobile null,
  confidence 0 and the notes "Extraction failed: " followed by the last error message.
  When the store and the queue accept it, the result goes on to the parsed-messages
  topic and the dashboard like any other result and is returned to the caller: nothing
  is sent to the dead-letter topic and no error is thrown.
\<close>

theorem process_exhausted_retries:
  assumes "tryAttempt (llm e 1) = Inl m1" "tryAttempt (llm e 2) = Inl m2"
    "tryAttempt (llm e 3) = Inl m3" "m3 \<noteq> []"
  shows "let r = (exhaustedResult session (Some m3))\<lparr> pd_status := Some Failed \<rparr> in
     take 3 (snd (process e session)) = [Sleep 2000, Sleep 4000, SaveContact r] \<and>
     pd_status r = Some Failed \<and>
     pd_extracted r = \<lparr> ex_name = None, ex_address = None, ex_mobile = None, ex_confidence = 0,
                        ex_notes = Some (''Extraction failed: '' @ m3) \<rparr> \<and>
     (\<forall>contactId. saveContact e r = Inr contactId \<and> sendParsedMessage e r = None \<longrightarrow>
        process e session =
          (Inr r, [Sleep 2000, Sleep 4000, SaveContact r, SendParsedMessage r,
                   BroadcastNewContact r contactId]))"
  using assms(4)
  by (auto simp add: process_def extractContactInfo_all_fail [OF assms(1-3)] classify_def
      truthy_def exhaustedResult_def catchBlock_def Let_def split: sum.splits option.splits)

theorem process_exhausted_retries_witness:
  "process (workingSinks (\<lambda>attempt. CallFails ''Request timed out.'')) exampleSession =
     (Inr ((exhaustedResult exampleSession (Some ''Request timed out.''))\<lparr> pd_status := Some Failed \<rparr>),
      [Sleep 2000, Sleep 4000,
       SaveContact ((exhaustedResult exampleSession (Some ''Request timed out.''))\<lparr> pd_status := Some Failed \<rparr>),
       SendParsedMessage ((exhaustedResult exampleSession (Some ''Request timed out.''))\<lparr> pd_status := Some Failed \<rparr>),
       BroadcastNewContact ((exhaustedResult exampleSession (Some ''Request timed out.''))\<lparr> pd_status := Some Failed \<rparr>) 1])"
  using process_exhausted_retries [of "workingSinks (\<lambda>attempt. CallFails ''Request timed out.'')"
      "''Request timed out.''" "''Request timed out.''" "''Request timed out.''" exampleSession]
  by (simp add: workingSinks_def tryAttempt_def Let_def)

text \<open>C1 as stated fails: with three time-outs and working sinks, \<open>process\<close> does not
  reject with the error and makes no call to \<open>sendToDeadLetter\<close>.\<close>

theorem process_exhausted_retries_counterexample:
  "fst (process (workingSinks (\<lambda>attempt. CallFails ''Request timed out.'')) exampleSession) \<noteq>
     Inl ''Request timed out.'' \<and>
   \<not> list_ex (\<lambda>eff. case eff of SendToDeadLetter s msg \<Rightarrow> True | _ \<Rightarrow> False)
        (snd (process (workingSinks (\<lambda>attempt. CallFails ''Request timed out.'')) exampleSession))"
  by (simp add: process_def classify_def truthy_def workingSinks_def exhaustedResult_def
      extractContactInfo_all_fail [of _ "''Request timed out.''" "''Request timed out.''" "''Request timed out.''"]
      tryAttempt_def Let_def)

text \<open>
  C7. The code at an input where it departs from the claim: all three attempts fail
  with an error whose message is the empty string. \<open>extractContactInfo\<close> returns its
  result with status \<open>failed\<close>, but the test \<open>if (parsedData.error)\<close> of \<open>process\<close> finds
  the empty message falsy, and the confidence 0 of the failed result then makes the
  status \<open>low_confidence\<close>.
\<close>

theorem empty_error_message_low_confidence:
  "fst (process (workingSinks (\<lambda>attempt. CallFails [])) exampleSession) =
     Inr ((exhaustedResult exampleSession (Some []))\<lparr> pd_status := Some LowConfidence \<rparr>)"
  by (simp add: process_def classify_def truthy_def workingSinks_def exhaustedResult_def
      extractContactInfo_all_fail [of _ "[]" "[]" "[]"] tryAttempt_def Let_def)

text \<open>
  C9. When the first attempt that succeeds is attempt \<open>k\<close> (at most the third), the
  result that reaches the status classifier and then \<open>saveContact\<close> has no error and a
  confidence other than 0; when the reply's confidence is 0 or missing, the confidence
  is the default 0.5 and the status is \<open>processed\<close>.
\<close>

theorem default_confidence:
  assumes "1 \<le> k" "k \<le> maxRetries"
    "\<forall>i. 1 \<le> i \<and> i < k \<longrightarrow> (\<exists>msg. tryAttempt (llm e i) = Inl msg)"
    "llm e k = Json j"
  shows "let r = classify (fst (extractContactInfo (llm e) session)) in
     ex_confidence (pd_extracted r) \<noteq> 0 \<and>
     pd_error r = None \<and>
     SaveContact r \<in> set (snd (process e session)) \<and>
     (j_confidence j = None \<or> j_confidence j = Some 0 \<longrightarrow>
        ex_confidence (pd_extracted r) = 0.5 \<and> pd_status r = Some Processed)"
proof -
  have "tryAttempt (llm e k) = Inr j" using assms(4) by (simp add: tryAttempt_def)
  then have "fst (extractContactInfo (llm e) session) = successResult session j"
    unfolding extractContactInfo_def using assms(1-3) by (intro extractLoop_first_success) auto
  then show ?thesis
    using process_saves_classified [of e session]
    by (auto simp add: classify_def successResult_def truthy_def Let_def split: option.splits)
qed

theorem default_confidence_witness:
  "ex_confidence (pd_extracted (classify (fst (extractContactInfo flakyService exampleSession)))) = 0.5 \<and>
   pd_status (classify (fst (extractContactInfo flakyService exampleSession))) = Some Processed"
  using default_confidence [of 2 "workingSinks flakyService"
      "\<lparr> j_name = Some ''Rahul Sharma'', j_address = None,
         j_mobile = Some ''+91 98765 43210'', j_confidence = Some 0, j_notes = None \<rparr>" exampleSession]
  by (simp add: workingSinks_def flakyService_def maxRetries_def tryAttempt_def Let_def)

text \<open>
  C4 (amended). For a non-empty input, phone normalisation keeps the digits and every
  \<open>+\<close>, then drops one leading \<open>+\<close>; when the length of what is left lies in [10,15]
  that is the result, otherwise the input is returned unchanged. The empty string
  gives null. "+91 98765 43210" becomes "919876543210" and "12345" is returned as it is.
\<close>

theorem normalizePhoneNumber_spec:
  "normalizePhoneNumber (Some p) =
     (let kept = filter (\<lambda>c. isDigit c \<or> c = CHR ''+'') p;
          normalized = (case kept of [] \<Rightarrow> [] | c # cs \<Rightarrow> if c = CHR ''+'' then cs else kept)
      in if p = [] then None
         else if 10 \<le> length normalized \<and> length normalized \<le> 15 then Some normalized
         else Some p) \<and>
   normalizePhoneNumber (Some ''+91 98765 43210'') = Some ''919876543210'' \<and>
   normalizePhoneNumber (Some ''12345'') = Some ''12345''"
  by (auto simp add: normalizePhoneNumber_def isDigit_def Let_def split: list.splits)

text \<open>C4 as stated fails: the empty string is not returned unchanged, and a \<open>+\<close> inside
  the number is kept, so the result is not the string of the digits.\<close>

theorem normalizePhoneNumber_counterexample:
  "normalizePhoneNumber (Some []) \<noteq> Some [] \<and>
   normalizePhoneNumber (Some ''98765 +43210'') \<noteq> Some ''9876543210''"
  by (simp add: normalizePhoneNumber_def isDigit_def)

section \<open>The text classifier\<close>

lemma length_toLowerCase: "length (toLowerCase s) = length s"
  by (simp add: toLowerCase_def)

text \<open>
  C6 (amended). \<open>isNoise(text)\<close> is true exactly when the text is shorter than 2
  characters, or the text without its leading and trailing white space is shorter than
  15 characters and, in lower case, matches at least one of the four patterns.
\<close>

theorem isNoise_iff:
  "isNoise text =
     (length text < 2 \<or>
      (length (trim text) < 15 \<and>
       (\<exists>pattern \<in> set noisePatterns. regexTest pattern (toLowerCase (trim text)))))"
  by (auto simp add: isNoise_def Let_def length_toLowerCase list_ex_iff)

text \<open>C6 as stated fails: a greeting followed by thirteen spaces has 15 characters and
  is noise.\<close>

theorem isNoise_counterexample:
  "isNoise ''hi             '' \<and> \<not> length ''hi             '' < 2 \<and>
   \<not> length ''hi             '' < 15"
  by code_simp

section \<open>Evaluating the classifier and the correlator\<close>

declare showNat.simps [simp del]

lemmas classifier_defs =
  isNoise_def trim_def isSpace_def toLowerCase_def toLowerChar_def latin1Upper_def
  latin1Lower_def asciiLower_def noisePatterns_def regexTest_def wordAt_def isWordChar_def
  isLower_def isUpper_def isDigit_def identifySlot_def namePatternTest_def addressKeywords_def

lemma noise_hi: "isNoise ''hi''"
  by (simp add: classifier_defs)

lemma not_noise_name: "\<not> isNoise ''Rahul Sharma''"
  by (simp add: classifier_defs)

lemma slot_name: "identifySlot ''Rahul Sharma'' = Name"
  by (simp add: classifier_defs)

lemma not_noise_number: "\<not> isNoise ''9876543210''"
  by (simp add: classifier_defs)

lemma slot_number: "identifySlot ''9876543210'' = Mobile"
  by (simp add: classifier_defs)

lemmas correlator_defs =
  addMessage_def accumulate_def joinSession_def processSession_def resetTimer_def newSession_def
  adaptiveTimeoutMs_def truthy_def buildSessionData_def clearTimeout_def mkSessionId_def
  showNat.simps

section \<open>The cache of seen message ids\<close>

text \<open>The caches are \<open>Set\<close>s: deleting the oldest \<open>n\<close> entries one by one leaves the rest,
  and the list of seen ids never holds an id twice.\<close>

lemma evict_oldest:
  assumes "distinct xs"
  shows "filter (\<lambda>x. x \<notin> set (take n xs)) xs = drop n xs"
proof -
  have "distinct (take n xs @ drop n xs)" using assms by simp
  then have disjoint: "set (take n xs) \<inter> set (drop n xs) = {}"
    unfolding distinct_append by blast
  have "filter (\<lambda>x. x \<notin> set (take n xs)) (take n xs @ drop n xs) = drop n xs"
    using disjoint by (auto simp add: filter_empty_conv filter_id_conv simp del: append_take_drop_id)
  then show ?thesis by simp
qed

lemma seenAfter_distinct: "distinct ids \<Longrightarrow> distinct (seenAfter ids i)"
  by (auto simp add: seenAfter_def dest: in_set_dropD)

lemma processedMessageIds_processSession [simp]:
  "processedMessageIds (processSession st sid now) = processedMessageIds st"
  by (simp add: processSession_def Let_def split: option.splits)

lemma processedMessageIds_resetTimer [simp]:
  "processedMessageIds (resetTimer st sid ms) = processedMessageIds st"
  by (simp add: resetTimer_def Let_def)

lemma processedMessageIds_accumulate [simp]:
  "processedMessageIds (fst (accumulate st m now)) = processedMessageIds st"
  by (simp add: accumulate_def Let_def split: option.splits)

lemma processedMessageIds_addMessage:
  "processedMessageIds (addMessage st m now) = seenAfter (processedMessageIds st) (msg_id m)"
  by (simp add: addMessage_def seenAfter_def Let_def case_prod_beta)

lemma processedMessageIds_removeMessage [simp]:
  "processedMessageIds (removeMessage st sid messageId) = processedMessageIds st"
  by (simp add: removeMessage_def Let_def split: option.splits)

lemma processedMessageIds_fireTimer [simp]:
  "processedMessageIds (fireTimer st h now) = processedMessageIds st"
  by (simp add: fireTimer_def split: option.splits)

lemma processedMessageIds_flushLoop [simp]:
  "processedMessageIds (flushLoop ks st now) = processedMessageIds st"
  by (induction ks arbitrary: st) simp_all

lemma processedMessageIds_step:
  "processedMessageIds (step st ev) = foldl seenAfter (processedMessageIds st) (addedId ev)"
  by (cases ev) (simp_all add: processedMessageIds_addMessage flushAll_def)

lemma processedMessageIds_run:
  "processedMessageIds (run st evs) = foldl seenAfter (processedMessageIds st) (addedIds evs)"
  unfolding run_def addedIds_def
  by (induction evs arbitrary: st) (simp_all add: processedMessageIds_step)

lemma amongLast_member: "amongLast n i ids \<Longrightarrow> i \<in> set ids"
  unfolding amongLast_def by (meson in_set_dropD)

lemma amongLast_mono: "amongLast n i ids \<Longrightarrow> n \<le> n' \<Longrightarrow> amongLast n' i ids"
  unfolding amongLast_def
  by (metis diff_le_mono2 set_drop_subset_set_drop subsetD)

lemma amongLast_append: "amongLast n i ids \<Longrightarrow> amongLast (Suc n) i (ids @ [j])"
  unfolding amongLast_def by (cases "n \<le> length ids") (auto simp add: Suc_diff_le)

lemma amongLast_drop:
  "amongLast n i ids \<Longrightarrow> n + k \<le> length ids \<Longrightarrow> amongLast n i (drop k ids)"
  unfolding amongLast_def by simp

lemma amongLast_seenAfter:
  assumes "amongLast n i ids" "n \<le> 5000"
  shows "amongLast (Suc n) i (seenAfter ids j)"
proof (cases "j \<in> set ids")
  case True
  then show ?thesis using assms(1) by (simp add: seenAfter_def amongLast_mono)
next
  case False
  have a: "amongLast (Suc n) i (ids @ [j])" using assms(1) by (rule amongLast_append)
  show ?thesis
  proof (cases "10000 < length (ids @ [j])")
    case True
    then have "Suc n + 5000 \<le> length (ids @ [j])" using assms(2) by simp
    then have "amongLast (Suc n) i (drop 5000 (ids @ [j]))" using a by (rule amongLast_drop [rotated])
    then show ?thesis using False True by (simp add: seenAfter_def)
  next
    case False
    then show ?thesis using \<open>j \<notin> set ids\<close> a by (simp add: seenAfter_def)
  qed
qed

lemma amongLast_foldl:
  "amongLast n i ids \<Longrightarrow> n + length js \<le> 5001 \<Longrightarrow>
   amongLast (n + length js) i (foldl seenAfter ids js)"
proof (induction js arbitrary: n ids)
  case Nil
  then show ?case by simp
next
  case (Cons j js)
  then have "amongLast (Suc n) i (seenAfter ids j)" by (intro amongLast_seenAfter) auto
  then have "amongLast (Suc n + length js) i (foldl seenAfter (seenAfter ids j) js)"
    using Cons.prems by (intro Cons.IH) auto
  then show ?case by simp
qed

lemma amongLast_fresh: "i \<notin> set ids \<Longrightarrow> amongLast (Suc 0) i (seenAfter ids i)"
  by (auto simp add: seenAfter_def amongLast_def)

lemma addMessage_duplicate:
  "msg_id m \<in> set (processedMessageIds st) \<Longrightarrow> addMessage st m now = st"
  by (simp add: addMessage_def)

lemma seen_after_own_call: "msg_id m \<in> set (processedMessageIds (addMessage st m now))"
proof (cases "msg_id m \<in> set (processedMessageIds st)")
  case True
  then show ?thesis by (simp add: addMessage_duplicate)
next
  case False
  then show ?thesis
    using amongLast_member [OF amongLast_fresh] by (simp add: processedMessageIds_addMessage)
qed

lemma still_seen:
  assumes "msg_id m \<notin> set (processedMessageIds st)" "length (addedIds evs) \<le> 5000"
  shows "msg_id m \<in> set (processedMessageIds (run (addMessage st m now) evs))"
proof -
  have "amongLast (Suc 0) (msg_id m) (processedMessageIds (addMessage st m now))"
    using assms(1) by (simp add: processedMessageIds_addMessage amongLast_fresh)
  then have "amongLast (Suc 0 + length (addedIds evs)) (msg_id m)
               (foldl seenAfter (processedMessageIds (addMessage st m now)) (addedIds evs))"
    using assms(2) by (intro amongLast_foldl) auto
  then show ?thesis by (simp add: processedMessageIds_run amongLast_member)
qed

lemma addMessage_noise:
  "isNoise (msg_text m) \<Longrightarrow>
   addMessage st m now = st\<lparr> processedMessageIds := seenAfter (processedMessageIds st) (msg_id m) \<rparr>"
  by (simp add: addMessage_def seenAfter_def Let_def)

lemma run_noise:
  "list_all (\<lambda>ev. case ev of AddMessage m now \<Rightarrow> isNoise (msg_text m) | _ \<Rightarrow> False) evs \<Longrightarrow>
   run st evs = st\<lparr> processedMessageIds := foldl seenAfter (processedMessageIds st) (addedIds evs) \<rparr>"
proof (induction evs arbitrary: st)
  case Nil
  then show ?case by (simp add: run_def addedIds_def)
next
  case (Cons ev evs)
  then obtain m now where ev: "ev = AddMessage m now" and noise: "isNoise (msg_text m)"
    by (cases ev) auto
  have "run st (ev # evs) = run (addMessage st m now) evs" by (simp add: run_def ev)
  also have "\<dots> = (addMessage st m now)\<lparr> processedMessageIds :=
      foldl seenAfter (processedMessageIds (addMessage st m now)) (addedIds evs) \<rparr>"
    using Cons.prems by (intro Cons.IH) simp
  finally show ?case by (simp add: addMessage_noise [OF noise] addedIds_def ev)
qed

lemma foldl_seenAfter_small:
  "distinct (ids @ js) \<Longrightarrow> length ids + length js \<le> 10000 \<Longrightarrow> foldl seenAfter ids js = ids @ js"
proof (induction js arbitrary: ids)
  case Nil
  then show ?case by simp
next
  case (Cons j js)
  have "seenAfter ids j = ids @ [j]" using Cons.prems by (simp add: seenAfter_def)
  moreover have "foldl seenAfter (ids @ [j]) js = (ids @ [j]) @ js"
    using Cons.prems by (intro Cons.IH) auto
  ultimately show ?case by simp
qed

lemma floodId_inj: "floodId a = floodId b \<Longrightarrow> a = b"
  unfolding floodId_def by (metis length_replicate nat.inject)

lemma distinct_floodIds: "distinct (map floodId [0..<n])"
  by (simp add: distinct_map inj_on_def) (meson floodId_inj)

lemma flood_is_noise:
  "list_all (\<lambda>ev. case ev of AddMessage m now \<Rightarrow> isNoise (msg_text m) | _ \<Rightarrow> False) flood"
  by (simp add: flood_def floodEvent_def greeting_def list_all_iff noise_hi)

lemma addedIds_floodEvents: "addedIds (map floodEvent ns) = map floodId ns"
  unfolding addedIds_def by (induction ns) (simp_all add: floodEvent_def)

lemma floodId_not: "c \<noteq> CHR ''x'' \<Longrightarrow> c # cs \<notin> set (map floodId ns)"
  by (auto simp add: floodId_def)

text \<open>After the flood the cache holds the 5001 newest ids, and an id recorded before the
  flood is not among them.\<close>

lemma flood_evicts:
  assumes "c \<noteq> CHR ''x''"
  shows "c # cs \<notin> set (foldl seenAfter [c # cs] (addedIds flood))"
    and "length (foldl seenAfter [c # cs] (addedIds flood)) = 5001"
proof -
  let ?i = "c # cs"
  have split: "[0..<10000] = [0..<9999] @ [9999]"
    using upt_Suc_append [of 0 9999] by simp
  have fresh: "?i \<notin> set (map floodId ns)" for ns using assms by (rule floodId_not)
  have d: "distinct ([?i] @ map floodId [0..<9999])"
    using fresh [of "[0..<9999]"] distinct_floodIds [of 9999] by simp
  have first: "foldl seenAfter [?i] (map floodId [0..<9999]) = [?i] @ map floodId [0..<9999]"
    using d by (rule foldl_seenAfter_small) simp
  have new: "floodId 9999 \<notin> set ([?i] @ map floodId [0..<9999])"
    using fresh [of "[9999]"] floodId_inj [of 9999] by auto
  have "addedIds flood = map floodId [0..<10000]"
    by (simp only: flood_def addedIds_floodEvents)
  also have "\<dots> = map floodId [0..<9999] @ [floodId 9999]"
    by (simp only: split map_append list.map)
  finally have "foldl seenAfter [?i] (addedIds flood) =
          seenAfter ([?i] @ map floodId [0..<9999]) (floodId 9999)"
    by (simp only: foldl_append first foldl.simps)
  also have "\<dots> = drop 5000 (([?i] @ map floodId [0..<9999]) @ [floodId 9999])"
    using new by (simp add: seenAfter_def del: upt_rec_numeral)
  also have "\<dots> = drop 4999 (map floodId [0..<9999] @ [floodId 9999])"
    by (simp del: upt_rec_numeral)
  finally have eq: "foldl seenAfter [?i] (addedIds flood) =
      drop 4999 (map floodId [0..<9999] @ [floodId 9999])" .
  have "set (drop 4999 (map floodId [0..<9999] @ [floodId 9999])) \<subseteq> set (map floodId ([0..<9999] @ [9999]))"
    using set_drop_subset [of 4999 "map floodId [0..<9999] @ [floodId 9999]"] by simp
  then show "?i \<notin> set (foldl seenAfter [?i] (addedIds flood))"
    using fresh [of "[0..<9999] @ [9999]"] unfolding eq by blast
  show "length (foldl seenAfter [?i] (addedIds flood)) = 5001"
    unfolding eq by (simp del: upt_rec_numeral)
qed


lemma first_message_state: "addMessage (constructor 120 10) firstMessage 5 = afterFirst"
  by (simp add: constructor_def firstMessage_def afterFirst_def not_noise_name slot_name
      correlator_defs Let_def)

lemma first_message_again:
  assumes "''A1'' \<notin> set cache" "length cache < 10000"
  shows "map (startedAt \<circ> snd)
           (sessions (addMessage (afterFirst\<lparr> processedMessageIds := cache \<rparr>) firstMessage 7)) = [7]"
  using assms
  by (simp add: firstMessage_def afterFirst_def not_noise_name slot_name correlator_defs Let_def)

lemma greeting_id_reused:
  assumes "''G1'' \<notin> set cache" "length cache < 10000"
  shows "sessions (addMessage ((constructor 120 10)\<lparr> processedMessageIds := cache \<rparr>)
                     (greeting\<lparr> msg_text := ''9876543210'' \<rparr>) 7) \<noteq> []"
  using assms
  by (simp add: constructor_def greeting_def firstMessage_def not_noise_number slot_number
      correlator_defs Let_def)

text \<open>
  C5 (amended). Of two messages with the same id, the second is dropped, and the call
  changes nothing, while the id is still in the bounded cache of seen ids: always when
  it comes right after the first, and, when the first was itself admitted, as long as at
  most 5000 calls of \<open>addMessage\<close> lie between the two (whatever else happens to the
  correlator in between).
\<close>

theorem duplicate_is_noop:
  assumes "msg_id m2 = msg_id m1"
  shows "addMessage (addMessage st m1 t1) m2 t2 = addMessage st m1 t1 \<and>
     (msg_id m1 \<notin> set (processedMessageIds st) \<and> length (addedIds evs) \<le> 5000 \<longrightarrow>
        addMessage (run (addMessage st m1 t1) evs) m2 t2 = run (addMessage st m1 t1) evs)"
  using assms seen_after_own_call [of m1 st t1] still_seen [of m1 st evs t1]
  by (auto intro: addMessage_duplicate)

theorem duplicate_is_noop_witness:
  "addMessage (run (addMessage (constructor 120 10) firstMessage 5) [AddMessage greeting 6])
     (firstMessage\<lparr> msg_text := ''9876543210'' \<rparr>) 7 =
   run (addMessage (constructor 120 10) firstMessage 5) [AddMessage greeting 6]"
proof -
  have same: "msg_id (firstMessage\<lparr> msg_text := ''9876543210'' \<rparr>) = msg_id firstMessage"
    by simp
  have fresh: "msg_id firstMessage \<notin> set (processedMessageIds (constructor 120 10))"
    by (simp add: constructor_def)
  have few: "length (addedIds [AddMessage greeting 6]) \<le> 5000"
    by (simp add: addedIds_def)
  show ?thesis
    using duplicate_is_noop [OF same, where st = "constructor 120 10"
        and evs = "[AddMessage greeting 6]" and ?t1.0 = 5 and ?t2.0 = 7] fresh few
    by blast
qed

text \<open>C5 as stated fails: once 10000 further ids have gone through the cache, the id of
  the first message has been evicted, and the same message is taken into a session
  again.\<close>

theorem duplicate_is_noop_counterexample:
  "sessions (addMessage (run (addMessage (constructor 120 10) firstMessage 5) flood) firstMessage 7) \<noteq>
   sessions (run (addMessage (constructor 120 10) firstMessage 5) flood)"
proof -
  let ?cache = "foldl seenAfter [''A1''] (addedIds flood)"
  have run: "run (addMessage (constructor 120 10) firstMessage 5) flood =
      afterFirst\<lparr> processedMessageIds := ?cache \<rparr>"
    by (simp add: first_message_state run_noise [OF flood_is_noise]) (simp add: afterFirst_def)
  have "map (startedAt \<circ> snd) (sessions (addMessage (afterFirst\<lparr> processedMessageIds := ?cache \<rparr>)
          firstMessage 7)) = [7]"
    using flood_evicts [of "CHR ''A''" "''1''"] by (intro first_message_again) simp_all
  moreover have "map (startedAt \<circ> snd) (sessions (afterFirst\<lparr> processedMessageIds := ?cache \<rparr>)) = [5]"
    by (simp add: afterFirst_def)
  ultimately show ?thesis unfolding run by force
qed

text \<open>
  C10 (amended). \<open>addMessage\<close> records the id of a message before the noise check: a
  message rejected as noise changes nothing but the cache of seen ids, which then holds
  its id. A later message with that id is dropped, whatever its text, while the id is
  still in the bounded cache: always when it comes next, and as long as at most 5000
  calls of \<open>addMessage\<close> lie in between.
\<close>

theorem noise_id_is_remembered:
  assumes "isNoise (msg_text m1)" "msg_id m1 \<notin> set (processedMessageIds st)"
    "msg_id m2 = msg_id m1"
  shows "addMessage st m1 t1 =
       st\<lparr> processedMessageIds := seenAfter (processedMessageIds st) (msg_id m1) \<rparr> \<and>
     msg_id m1 \<in> set (processedMessageIds (addMessage st m1 t1)) \<and>
     addMessage (addMessage st m1 t1) m2 t2 = addMessage st m1 t1 \<and>
     (length (addedIds evs) \<le> 5000 \<longrightarrow>
        addMessage (run (addMessage st m1 t1) evs) m2 t2 = run (addMessage st m1 t1) evs)"
  using assms seen_after_own_call [of m1 st t1] still_seen [of m1 st evs t1]
  by (auto intro: addMessage_duplicate simp add: addMessage_noise)

theorem noise_id_is_remembered_witness:
  "\<not> isNoise (msg_text (greeting\<lparr> msg_text := ''9876543210'' \<rparr>)) \<and>
   addMessage (run (addMessage (constructor 120 10) greeting 5) [AddMessage firstMessage 6])
     (greeting\<lparr> msg_text := ''9876543210'' \<rparr>) 7 =
   run (addMessage (constructor 120 10) greeting 5) [AddMessage firstMessage 6]"
proof -
  have noise: "isNoise (msg_text greeting)"
    by (simp add: greeting_def noise_hi)
  have fresh: "msg_id greeting \<notin> set (processedMessageIds (constructor 120 10))"
    by (simp add: constructor_def)
  have same: "msg_id (greeting\<lparr> msg_text := ''9876543210'' \<rparr>) = msg_id greeting"
    by simp
  have few: "length (addedIds [AddMessage firstMessage 6]) \<le> 5000"
    by (simp add: addedIds_def)
  have dropped:
    "addMessage (run (addMessage (constructor 120 10) greeting 5) [AddMessage firstMessage 6])
       (greeting\<lparr> msg_text := ''9876543210'' \<rparr>) 7 =
     run (addMessage (constructor 120 10) greeting 5) [AddMessage firstMessage 6]"
    using noise_id_is_remembered [OF noise fresh same, where evs = "[AddMessage firstMessage 6]"
        and ?t1.0 = 5 and ?t2.0 = 7] few
    by blast
  have "\<not> isNoise (msg_text (greeting\<lparr> msg_text := ''9876543210'' \<rparr>))"
    using not_noise_number by simp
  then show ?thesis using dropped by (rule conjI)
qed

text \<open>C10 as stated fails: after 10000 further ids the id of the greeting has been
  evicted, and a message that reuses it starts a session.\<close>

theorem noise_id_reused_counterexample:
  "sessions (addMessage (run (addMessage (constructor 120 10) greeting 5) flood)
               (greeting\<lparr> msg_text := ''9876543210'' \<rparr>) 7) \<noteq>
   sessions (run (addMessage (constructor 120 10) greeting 5) flood)"
proof -
  let ?cache = "foldl seenAfter [''G1''] (addedIds flood)"
  have noise: "isNoise (msg_text greeting)" by (simp add: greeting_def noise_hi)
  have first: "addMessage (constructor 120 10) greeting 5 =
      (constructor 120 10)\<lparr> processedMessageIds := [''G1''] \<rparr>"
    by (simp add: addMessage_noise [OF noise]) (simp add: constructor_def greeting_def seenAfter_def)
  have run: "run (addMessage (constructor 120 10) greeting 5) flood =
      (constructor 120 10)\<lparr> processedMessageIds := ?cache \<rparr>"
    by (simp add: first run_noise [OF flood_is_noise])
  have "sessions (addMessage ((constructor 120 10)\<lparr> processedMessageIds := ?cache \<rparr>)
                     (greeting\<lparr> msg_text := ''9876543210'' \<rparr>) 7) \<noteq> []"
    using flood_evicts [of "CHR ''G''" "''1''"] by (intro greeting_id_reused) simp_all
  moreover have "sessions ((constructor 120 10)\<lparr> processedMessageIds := ?cache \<rparr>) = []"
    by (simp add: constructor_def)
  ultimately show ?thesis unfolding run by simp
qed

section \<open>What every call keeps\<close>

lemma set_update_subset: "set (AList.update k v al) \<subseteq> insert (k, v) (set al)"
  by (induction al) auto

lemma list_all_update:
  "list_all P al \<Longrightarrow> P (k, v) \<Longrightarrow> list_all P (AList.update k v al)"
  using set_update_subset [of k v al] by (auto simp add: list_all_iff)

lemma list_all_delete: "list_all P al \<Longrightarrow> list_all P (AList.delete k al)"
  by (auto simp add: list_all_iff AList.delete_eq)

lemma stored_session_ok:
  "sessionsOk st \<Longrightarrow> map_of (sessions st) sid = Some s \<Longrightarrow> messages s \<noteq> [] \<and> slotsOk (slots s)"
  by (auto simp add: sessionsOk_def list_all_iff dest: map_of_SomeD)

text \<open>The three ways in which \<open>processSession\<close> ends.\<close>

lemma processSession_nothing:
  "map_of (sessions st) sid = None \<Longrightarrow> processSession st sid now = st"
  by (simp add: processSession_def)

lemma processSession_dropped:
  "map_of (sessions st) sid = Some s \<Longrightarrow> messages s \<noteq> [] \<Longrightarrow>
   mkSessionId sid (startedAt s) \<in> set (processedSessions st) \<Longrightarrow>
   processSession st sid now = st\<lparr> sessions := AList.delete sid (sessions st) \<rparr>"
  by (simp add: processSession_def)

lemma processSession_emitted:
  "map_of (sessions st) sid = Some s \<Longrightarrow> messages s \<noteq> [] \<Longrightarrow>
   mkSessionId sid (startedAt s) \<notin> set (processedSessions st) \<Longrightarrow>
   processSession st sid now =
     st\<lparr> processedSessions :=
            (if 1000 < length (processedSessions st @ [mkSessionId sid (startedAt s)])
             then drop 500 (processedSessions st @ [mkSessionId sid (startedAt s)])
             else processedSessions st @ [mkSessionId sid (startedAt s)]),
          pendingTimers := (case map_of (timers st) sid of
                              None \<Rightarrow> pendingTimers st
                            | Some h \<Rightarrow> clearTimeout h (pendingTimers st)),
          timers := AList.delete sid (timers st),
          emitted := emitted st @ [buildSessionData sid s now],
          sessions := AList.delete sid (sessions st) \<rparr>"
  by (simp add: processSession_def Let_def)

lemma processSession_fields [simp]:
  "nextHandle (processSession st sid now) = nextHandle st"
  "timeoutMs (processSession st sid now) = timeoutMs st"
  "maxMessages (processSession st sid now) = maxMessages st"
  by (simp_all add: processSession_def Let_def split: option.splits)

lemma processSession_sessions:
  "sessionsOk st \<Longrightarrow> sid \<in> fst ` set (sessions st) \<Longrightarrow>
   sessions (processSession st sid now) = AList.delete sid (sessions st)"
proof -
  assume ok: "sessionsOk st" and "sid \<in> fst ` set (sessions st)"
  then obtain s where s: "map_of (sessions st) sid = Some s"
    by (metis domD dom_map_of_conv_image_fst)
  then have "messages s \<noteq> []" using ok stored_session_ok by blast
  then show ?thesis using s by (simp add: processSession_def Let_def)
qed

lemma processSession_sessionsOk: "sessionsOk st \<Longrightarrow> sessionsOk (processSession st sid now)"
  by (auto simp add: processSession_def sessionsOk_def Let_def distinct_delete list_all_delete
      split: option.splits)

lemma cleared_timers_ok:
  assumes "timersOk st"
  shows "list_all (\<lambda>t. map_of (AList.delete sid (timers st)) (t_senderId t) = Some (t_handle t))
           (case map_of (timers st) sid of
              None \<Rightarrow> pendingTimers st
            | Some h \<Rightarrow> clearTimeout h (pendingTimers st))"
  using assms
  by (auto simp add: timersOk_def list_all_iff clearTimeout_def delete_conv' split: option.splits)

lemma processSession_timersOk: "timersOk st \<Longrightarrow> timersOk (processSession st sid now)"
  using cleared_timers_ok [of st sid]
  by (auto simp add: processSession_def Let_def timersOk_def split: option.splits)

lemma processSession_wf: "wellFormed st \<Longrightarrow> wellFormed (processSession st sid now)"
  by (simp add: wellFormed_def processSession_sessionsOk processSession_timersOk)

text \<open>\<open>resetTimer\<close> leaves the sender exactly one pending timer.\<close>

lemma resetTimer_pending:
  assumes "timersOk st"
  shows "filter (\<lambda>t. t_senderId t = sid) (pendingTimers (resetTimer st sid ms)) =
           [\<lparr> t_handle = nextHandle st, t_senderId = sid, t_timeoutMs = ms \<rparr>]"
proof -
  have "filter (\<lambda>t. t_senderId t = sid)
          (case map_of (timers st) sid of
             None \<Rightarrow> pendingTimers st
           | Some h \<Rightarrow> clearTimeout h (pendingTimers st)) = []"
    using assms
    by (auto simp add: timersOk_def list_all_iff clearTimeout_def filter_empty_conv split: option.splits)
  then show ?thesis by (simp add: resetTimer_def Let_def)
qed

lemma resetTimer_fields [simp]:
  "sessions (resetTimer st sid ms) = sessions st"
  "emitted (resetTimer st sid ms) = emitted st"
  "processedSessions (resetTimer st sid ms) = processedSessions st"
  "timeoutMs (resetTimer st sid ms) = timeoutMs st"
  "maxMessages (resetTimer st sid ms) = maxMessages st"
  "map_of (timers (resetTimer st sid ms)) sid = Some (nextHandle st)"
  by (simp_all add: resetTimer_def Let_def update_conv')

lemma resetTimer_timersOk: "timersOk st \<Longrightarrow> timersOk (resetTimer st sid ms)"
  by (auto simp add: resetTimer_def Let_def timersOk_def list_all_iff clearTimeout_def update_conv'
      split: option.splits)

section \<open>The steps of addMessage up to the timer\<close>

text \<open>\<open>accumulate\<close> in terms of the collision check and the session that the message
  joins.\<close>

lemma adaptiveTimeoutMs_sessions [simp]:
  "adaptiveTimeoutMs (st\<lparr> sessions := al \<rparr>) s = adaptiveTimeoutMs st s"
  by (simp add: adaptiveTimeoutMs_def)

lemma adaptiveTimeoutMs_processSession [simp]:
  "adaptiveTimeoutMs (processSession st sid now) s = adaptiveTimeoutMs st s"
  by (simp add: adaptiveTimeoutMs_def)

lemma accumulate_unfold:
  "accumulate st m now =
     (resetTimer
        ((afterCollisionCheck st m now)\<lparr> sessions :=
            AList.update (msg_senderId m) (joinedSession st m now)
              (sessions (afterCollisionCheck st m now)) \<rparr>)
        (msg_senderId m) (adaptiveTimeoutMs st (joinedSession st m now)),
      joinedSession st m now)"
  by (simp add: accumulate_def afterCollisionCheck_def joinedSession_def collides_def Let_def
      split: option.splits)

lemma afterCollisionCheck_fields [simp]:
  "nextHandle (afterCollisionCheck st m now) = nextHandle st"
  "timeoutMs (afterCollisionCheck st m now) = timeoutMs st"
  "maxMessages (afterCollisionCheck st m now) = maxMessages st"
  "processedMessageIds (afterCollisionCheck st m now) = processedMessageIds st"
  by (simp_all add: afterCollisionCheck_def)

lemma afterCollisionCheck_sessionsOk: "sessionsOk st \<Longrightarrow> sessionsOk (afterCollisionCheck st m now)"
  by (simp add: afterCollisionCheck_def processSession_sessionsOk)

lemma afterCollisionCheck_timersOk: "timersOk st \<Longrightarrow> timersOk (afterCollisionCheck st m now)"
  by (simp add: afterCollisionCheck_def processSession_timersOk)

lemma adaptiveTimeoutMs_value:
  "slotsOk (slots s) \<Longrightarrow>
   adaptiveTimeoutMs st s =
     (if slot_name (slots s) \<noteq> None \<and> slot_mobile (slots s) \<noteq> None then 10 * 1000
      else if slot_name (slots s) \<noteq> None \<or> slot_mobile (slots s) \<noteq> None \<or>
              slot_address (slots s) \<noteq> None then 30 * 1000
      else timeoutMs st)"
  by (auto simp add: adaptiveTimeoutMs_def slotsOk_def truthy_def Let_def split: option.splits)

lemma adaptiveTimeoutMs_state:
  "timeoutMs st' = timeoutMs st \<Longrightarrow> adaptiveTimeoutMs st' s = adaptiveTimeoutMs st s"
  by (simp add: adaptiveTimeoutMs_def)

lemma not_noise_nonempty: "\<not> isNoise text \<Longrightarrow> text \<noteq> []"
  by (auto simp add: isNoise_def)

lemma joinSession_ok:
  "slotsOk (slots s) \<Longrightarrow> msg_text m \<noteq> [] \<Longrightarrow>
   messages (joinSession s slot m now) \<noteq> [] \<and> slotsOk (slots (joinSession s slot m now))"
  by (cases slot) (simp_all add: joinSession_def slotsOk_def)

lemma newSession_slotsOk: "slotsOk (slots (newSession m now))"
  by (simp add: newSession_def slotsOk_def)

lemma joinedSession_ok:
  assumes "sessionsOk st" "\<not> isNoise (msg_text m)"
  shows "messages (joinedSession st m now) \<noteq> [] \<and> slotsOk (slots (joinedSession st m now))"
proof -
  have "slotsOk (slots (case kept of None \<Rightarrow> newSession m now | Some s \<Rightarrow> s))"
    if "kept = None \<or> kept = map_of (sessions st) (msg_senderId m)" for kept
    using that assms(1) stored_session_ok [of st "msg_senderId m"]
    by (auto simp add: newSession_slotsOk split: option.splits)
  then show ?thesis
    using not_noise_nonempty [OF assms(2)]
    by (simp add: joinedSession_def joinSession_ok)
qed

lemma sessionsOk_stored:
  "sessionsOk st \<Longrightarrow> messages s \<noteq> [] \<Longrightarrow> slotsOk (slots s) \<Longrightarrow>
   sessionsOk (st\<lparr> sessions := AList.update sid s (sessions st) \<rparr>)"
  by (simp add: sessionsOk_def distinct_update list_all_update)

lemma timersOk_sessions [simp]: "timersOk (st\<lparr> sessions := al \<rparr>) = timersOk st"
  by (simp add: timersOk_def)

lemma sessionsOk_resetTimer [simp]: "sessionsOk (resetTimer st sid ms) = sessionsOk st"
  by (simp add: sessionsOk_def)

lemma accumulate_wf: "wellFormed st \<Longrightarrow> \<not> isNoise (msg_text m) \<Longrightarrow> wellFormed (fst (accumulate st m now))"
  by (simp add: wellFormed_def accumulate_unfold resetTimer_timersOk afterCollisionCheck_timersOk
      sessionsOk_stored afterCollisionCheck_sessionsOk joinedSession_ok)

lemma accumulate_stored:
  "map_of (sessions (fst (accumulate st m now))) (msg_senderId m) = Some (snd (accumulate st m now))"
  by (simp add: accumulate_unfold update_conv')

lemma accumulate_fields [simp]:
  "maxMessages (fst (accumulate st m now)) = maxMessages st"
  "timeoutMs (fst (accumulate st m now)) = timeoutMs st"
  by (simp_all add: accumulate_unfold)

lemma accumulate_timer:
  assumes "timersOk st"
  shows "filter (\<lambda>t. t_senderId t = msg_senderId m) (pendingTimers (fst (accumulate st m now))) =
           [\<lparr> t_handle = nextHandle st, t_senderId = msg_senderId m,
              t_timeoutMs = adaptiveTimeoutMs st (snd (accumulate st m now)) \<rparr>] \<and>
         map_of (timers (fst (accumulate st m now))) (msg_senderId m) = Some (nextHandle st)"
  using assms
  by (simp add: accumulate_unfold resetTimer_pending afterCollisionCheck_timersOk)

lemma wf_cache [simp]: "wellFormed (st\<lparr> processedMessageIds := ids \<rparr>) = wellFormed st"
  by (simp add: wellFormed_def sessionsOk_def timersOk_def)

lemma addMessage_admitted:
  assumes "msg_id m \<notin> set (processedMessageIds st)" "\<not> isNoise (msg_text m)"
  shows "addMessage st m now =
     (let armed = accumulate (st\<lparr> processedMessageIds :=
                     seenAfter (processedMessageIds st) (msg_id m) \<rparr>) m now
      in if maxMessages st \<le> length (messages (snd armed))
         then processSession (fst armed) (msg_senderId m) now
         else fst armed)"
  using assms by (simp add: addMessage_def seenAfter_def Let_def case_prod_beta)

section \<open>Reachable states\<close>

lemma constructor_wf: "wellFormed (constructor timeoutSeconds maxMessagesPerSession)"
  by (simp add: wellFormed_def sessionsOk_def timersOk_def constructor_def)

lemma addMessage_wf: "wellFormed st \<Longrightarrow> wellFormed (addMessage st m now)"
proof (cases "msg_id m \<in> set (processedMessageIds st) \<or> isNoise (msg_text m)")
  case True
  assume "wellFormed st"
  then show ?thesis using True
    by (auto simp add: addMessage_duplicate addMessage_noise)
next
  case False
  assume "wellFormed st"
  then have "wellFormed (fst (accumulate (st\<lparr> processedMessageIds :=
                     seenAfter (processedMessageIds st) (msg_id m) \<rparr>) m now))"
    using False by (intro accumulate_wf) simp_all
  then show ?thesis using False
    by (simp add: addMessage_admitted Let_def processSession_wf)
qed

lemma removeMessage_wf: "wellFormed st \<Longrightarrow> wellFormed (removeMessage st sid messageId)"
proof (cases "map_of (sessions st) sid")
  case None
  assume "wellFormed st"
  then show ?thesis using None by (simp add: removeMessage_def)
next
  case (Some s)
  assume inv: "wellFormed st"
  let ?remaining = "filter (\<lambda>m. sm_id m \<noteq> messageId) (messages s)"
  let ?st1 = "st\<lparr> sessions := AList.update sid (s\<lparr> messages := ?remaining \<rparr>) (sessions st) \<rparr>"
  have ok: "slotsOk (slots s)" using inv Some stored_session_ok by (auto simp add: wellFormed_def)
  show ?thesis
  proof (cases "?remaining = []")
    case True
    have "sessionsOk (st\<lparr> sessions := AList.delete sid (sessions st) \<rparr>)"
      using inv by (simp add: wellFormed_def sessionsOk_def distinct_delete list_all_delete)
    moreover have "timersOk (st\<lparr> pendingTimers := (case map_of (timers st) sid of
                                           None \<Rightarrow> pendingTimers st
                                         | Some h \<Rightarrow> clearTimeout h (pendingTimers st)),
                       timers := AList.delete sid (timers st) \<rparr>)"
      using inv cleared_timers_ok [of st sid] by (simp add: wellFormed_def timersOk_def)
    moreover have "messages s \<noteq> []" using inv Some stored_session_ok by (auto simp add: wellFormed_def)
    ultimately show ?thesis using Some True
      by (simp add: removeMessage_def Let_def wellFormed_def delete_update_same sessionsOk_def timersOk_def
          cong: option.case_cong)
  next
    case False
    then have "sessionsOk ?st1"
      using inv ok sessionsOk_stored [of st "s\<lparr> messages := ?remaining \<rparr>" sid] by (simp add: wellFormed_def)
    then show ?thesis using Some False inv
      by (simp add: removeMessage_def Let_def wellFormed_def)
  qed
qed

lemma fireTimer_wf: "wellFormed st \<Longrightarrow> wellFormed (fireTimer st h now)"
proof -
  assume inv: "wellFormed st"
  have "wellFormed (st\<lparr> pendingTimers := clearTimeout h (pendingTimers st) \<rparr>)"
    using inv by (auto simp add: wellFormed_def sessionsOk_def timersOk_def clearTimeout_def list_all_iff)
  then show ?thesis using inv
    by (simp add: fireTimer_def processSession_wf split: option.splits)
qed

lemma flushLoop_wf: "wellFormed st \<Longrightarrow> wellFormed (flushLoop ks st now)"
  by (induction ks arbitrary: st) (simp_all add: processSession_wf)

lemma step_wf: "wellFormed st \<Longrightarrow> wellFormed (step st ev)"
  by (cases ev) (simp_all add: addMessage_wf removeMessage_wf fireTimer_wf flushLoop_wf flushAll_def)

lemma run_wf: "wellFormed st \<Longrightarrow> wellFormed (run st evs)"
  unfolding run_def by (induction evs arbitrary: st) (simp_all add: step_wf)

text \<open>Every state that the correlator reaches from its initial state is well formed.\<close>

lemma reachable_wellFormed:
  "wellFormed (run (constructor timeoutSeconds maxMessagesPerSession) evs)"
  by (simp add: run_wf constructor_wf)

lemma afterFirst_wf: "wellFormed afterFirst"
  by (simp add: wellFormed_def sessionsOk_def timersOk_def slotsOk_def afterFirst_def)

section \<open>Two numbers within one millisecond\<close>

lemma not_noise_two: "\<not> isNoise ''9876543211''"
  by (simp add: classifier_defs)

lemma slot_two: "identifySlot ''9876543211'' = Mobile"
  by (simp add: classifier_defs)

lemma not_noise_three: "\<not> isNoise ''9876543212''"
  by (simp add: classifier_defs)

lemma slot_three: "identifySlot ''9876543212'' = Mobile"
  by (simp add: classifier_defs)

lemma number_one_state: "addMessage (constructor 120 10) numberOne 5 = afterNumberOne"
  by (simp add: constructor_def numberOne_def firstMessage_def afterNumberOne_def
      not_noise_number slot_number correlator_defs Let_def)

lemma number_two_state: "addMessage afterNumberOne numberTwo 5 = afterNumberTwo"
  by (simp add: numberTwo_def firstMessage_def afterNumberOne_def afterNumberTwo_def
      not_noise_two slot_two correlator_defs Let_def mkSessionId_def)

lemma two_numbers_run:
  "run (constructor 120 10) [AddMessage numberOne 5, AddMessage numberTwo 5] = afterNumberTwo"
  by (simp add: run_def number_one_state number_two_state)

lemma afterNumberOne_wf: "wellFormed afterNumberOne"
  using addMessage_wf [OF constructor_wf, of 120 10 numberOne 5] by (simp add: number_one_state)

section \<open>The timer step\<close>

text \<open>
  C3. For a message that reaches the timer step (its id is new and its text is not
  noise), in the state \<open>armed\<close> right after that step the sender's session \<open>s\<close> is
  stored, the sender has exactly one pending timer, the one registered for the sender in
  \<open>timers\<close>, and its delay is 10 s when the name and the mobile slot of \<open>s\<close> are
  filled, 30 s when at least one slot is filled, and the configured timeout otherwise.
  \<open>addMessage\<close> then ends in this state, or finalises the session when it has reached the
  message limit.
\<close>

theorem timer_rearmed:
  assumes "wellFormed st" "msg_id m \<notin> set (processedMessageIds st)" "\<not> isNoise (msg_text m)"
    "accumulate (st\<lparr> processedMessageIds := seenAfter (processedMessageIds st) (msg_id m) \<rparr>) m now =
       (armed, s)"
  shows "map_of (sessions armed) (msg_senderId m) = Some s \<and>
     filter (\<lambda>t. t_senderId t = msg_senderId m) (pendingTimers armed) =
       [\<lparr> t_handle = nextHandle st, t_senderId = msg_senderId m,
          t_timeoutMs =
            (if slot_name (slots s) \<noteq> None \<and> slot_mobile (slots s) \<noteq> None then 10 * 1000
             else if slot_name (slots s) \<noteq> None \<or> slot_mobile (slots s) \<noteq> None \<or>
                     slot_address (slots s) \<noteq> None then 30 * 1000
             else timeoutMs st) \<rparr>] \<and>
     map_of (timers armed) (msg_senderId m) = Some (nextHandle st) \<and>
     addMessage st m now =
       (if maxMessages st \<le> length (messages s) then processSession armed (msg_senderId m) now
        else armed)"
proof -
  let ?st1 = "st\<lparr> processedMessageIds := seenAfter (processedMessageIds st) (msg_id m) \<rparr>"
  have wf1: "wellFormed ?st1" using assms(1) by simp
  have armed: "armed = fst (accumulate ?st1 m now)" and s: "s = snd (accumulate ?st1 m now)"
    using assms(4) by simp_all
  have ok: "slotsOk (slots s)"
    using joinedSession_ok [of ?st1 m now] wf1 assms(3) by (simp add: s wellFormed_def accumulate_unfold)
  have timer: "filter (\<lambda>t. t_senderId t = msg_senderId m) (pendingTimers armed) =
           [\<lparr> t_handle = nextHandle st, t_senderId = msg_senderId m,
              t_timeoutMs = adaptiveTimeoutMs st s \<rparr>] \<and>
         map_of (timers armed) (msg_senderId m) = Some (nextHandle st)"
    using accumulate_timer [of ?st1 m now] wf1
    by (simp add: armed s wellFormed_def adaptiveTimeoutMs_state [of ?st1 st])
  show ?thesis
    using timer accumulate_stored [of ?st1 m now] addMessage_admitted [OF assms(2,3), of now]
    by (simp add: armed [symmetric] s [symmetric] adaptiveTimeoutMs_value [OF ok] Let_def)
qed

theorem timer_rearmed_witness:
  "filter (\<lambda>t. t_senderId t = msg_senderId secondMessage)
     (pendingTimers (fst (accumulate (afterFirst\<lparr> processedMessageIds := [''A1'', ''A2''] \<rparr>)
                            secondMessage 6))) =
     [\<lparr> t_handle = 1, t_senderId = msg_senderId secondMessage, t_timeoutMs = 10000 \<rparr>]"
proof -
  let ?st1 = "afterFirst\<lparr> processedMessageIds := [''A1'', ''A2''] \<rparr>"
  have fresh: "msg_id secondMessage \<notin> set (processedMessageIds afterFirst)"
    by (simp add: secondMessage_def afterFirst_def)
  have nn: "\<not> isNoise (msg_text secondMessage)"
    by (simp add: secondMessage_def not_noise_number)
  have seen: "afterFirst\<lparr> processedMessageIds :=
      seenAfter (processedMessageIds afterFirst) (msg_id secondMessage) \<rparr> = ?st1"
    by (simp add: seenAfter_def secondMessage_def afterFirst_def)
  have acc: "accumulate (afterFirst\<lparr> processedMessageIds :=
      seenAfter (processedMessageIds afterFirst) (msg_id secondMessage) \<rparr>) secondMessage 6 =
      (fst (accumulate ?st1 secondMessage 6), snd (accumulate ?st1 secondMessage 6))"
    by (simp add: seen)
  have filled: "slots (snd (accumulate ?st1 secondMessage 6)) =
      \<lparr> slot_name = Some ''Rahul Sharma'', slot_mobile = Some ''9876543210'', slot_address = None \<rparr>"
    by (simp add: accumulate_unfold joinedSession_def collides_def joinSession_def
        secondMessage_def firstMessage_def afterFirst_def slot_number truthy_def)
  show ?thesis
    using timer_rearmed [OF afterFirst_wf fresh nn acc]
    by (simp add: filled) (simp add: afterFirst_def)
qed

section \<open>Slot collisions\<close>

lemma update_new_key: "k \<notin> fst ` set al \<Longrightarrow> AList.update k v al = al @ [(k, v)]"
  by (induction al) auto

lemma stored_key: "map_of al k = Some v \<Longrightarrow> k \<in> fst ` set al"
  by (metis domI dom_map_of_conv_image_fst)

lemma processSession_emitted_list:
  "map_of (sessions st) sid = Some s \<Longrightarrow> messages s \<noteq> [] \<Longrightarrow>
   emitted (processSession st sid now) =
     (if mkSessionId sid (startedAt s) \<in> set (processedSessions st) then emitted st
      else emitted st @ [buildSessionData sid s now])"
  by (simp add: processSession_def Let_def)

text \<open>
  What \<open>addMessage\<close> does at a slot collision, for a message that gets as far as the
  collision test (its id is new and its text is not noise): the existing session leaves
  the store, the guard of \<open>processSession\<close> decides from the session id whether its
  record is emitted, and a new session that holds only the new message is stored for
  the sender (the message limit being above 1).
\<close>

lemma collision_step:
  assumes "wellFormed st" "msg_id m \<notin> set (processedMessageIds st)" "\<not> isNoise (msg_text m)"
    "map_of (sessions st) (msg_senderId m) = Some old"
    "identifySlot (msg_text m) \<noteq> Unknown"
    "getSlot (slots old) (identifySlot (msg_text m)) \<noteq> None"
    "1 < maxMessages st"
  shows "let fresh = \<lparr> senderId = msg_senderId m, senderNumber = msg_senderNumber m,
                       pushName = msg_pushName m,
                       messages = [\<lparr> sm_id = msg_id m, sm_text = msg_text m,
                                      sm_timestamp = msg_timestamp m, sm_receivedAt = now \<rparr>],
                       slots = setSlot \<lparr> slot_name = None, slot_mobile = None, slot_address = None \<rparr>
                                 (identifySlot (msg_text m)) (msg_text m),
                       startedAt = now, lastMessageAt = now \<rparr>
     in emitted (addMessage st m now) =
          (if mkSessionId (msg_senderId m) (startedAt old) \<in> set (processedSessions st)
           then emitted st
           else emitted st @ [buildSessionData (msg_senderId m) old now]) \<and>
        sessions (addMessage st m now) =
          AList.delete (msg_senderId m) (sessions st) @ [(msg_senderId m, fresh)] \<and>
        map_of (sessions (addMessage st m now)) (msg_senderId m) = Some fresh"
proof -
  let ?sid = "msg_senderId m"
  let ?st1 = "st\<lparr> processedMessageIds := seenAfter (processedMessageIds st) (msg_id m) \<rparr>"
  have ok: "sessionsOk ?st1" using assms(1) by (simp add: wellFormed_def sessionsOk_def)
  have old: "messages old \<noteq> []" "slotsOk (slots old)"
    using assms(1,4) stored_session_ok [of st ?sid old] by (simp_all add: wellFormed_def)
  have filled: "truthy (getSlot (slots old) (identifySlot (msg_text m)))"
    using old(2) assms(6) by (cases "identifySlot (msg_text m)") (auto simp add: slotsOk_def truthy_def)
  have col: "collides ?st1 m" using assms(4,5) filled by (simp add: collides_def)
  have key: "?sid \<in> fst ` set (sessions ?st1)"
    using assms(4) by (simp add: stored_key)
  have after: "afterCollisionCheck ?st1 m now = processSession ?st1 ?sid now"
    using col by (simp add: afterCollisionCheck_def)
  have gone: "sessions (processSession ?st1 ?sid now) = AList.delete ?sid (sessions st)"
    using processSession_sessions [OF ok key] by simp
  have joined: "joinedSession ?st1 m now =
      \<lparr> senderId = msg_senderId m, senderNumber = msg_senderNumber m, pushName = msg_pushName m,
        messages = [\<lparr> sm_id = msg_id m, sm_text = msg_text m,
                       sm_timestamp = msg_timestamp m, sm_receivedAt = now \<rparr>],
        slots = setSlot \<lparr> slot_name = None, slot_mobile = None, slot_address = None \<rparr>
                  (identifySlot (msg_text m)) (msg_text m),
        startedAt = now, lastMessageAt = now \<rparr>"
    using col assms(5) by (simp add: joinedSession_def joinSession_def newSession_def)
  have em: "emitted (processSession ?st1 ?sid now) =
      (if mkSessionId ?sid (startedAt old) \<in> set (processedSessions st) then emitted st
       else emitted st @ [buildSessionData ?sid old now])"
    using processSession_emitted_list [of ?st1 ?sid old now] assms(4) old(1) by simp
  have final: "addMessage st m now = fst (accumulate ?st1 m now)"
    using assms(7) by (simp add: addMessage_admitted [OF assms(2,3)] Let_def accumulate_unfold joined)
  have stored: "sessions (fst (accumulate ?st1 m now)) =
      AList.update ?sid (joinedSession ?st1 m now) (AList.delete ?sid (sessions st))"
    by (simp add: accumulate_unfold after gone)
  have "emitted (fst (accumulate ?st1 m now)) = emitted (processSession ?st1 ?sid now)"
    by (simp add: accumulate_unfold after)
  moreover have "sessions (fst (accumulate ?st1 m now)) =
      AList.delete ?sid (sessions st) @ [(?sid, joinedSession ?st1 m now)]"
    unfolding stored by (simp add: update_new_key delete_notin_dom)
  moreover have "map_of (sessions (fst (accumulate ?st1 m now))) ?sid = Some (joinedSession ?st1 m now)"
    unfolding stored by (simp add: update_conv')
  ultimately show ?thesis
    unfolding final Let_def joined em by simp
qed

text \<open>Two numbers of one sender, one millisecond apart: the session of the first is
  emitted and the second starts a session of its own.\<close>

lemma collision_next_millisecond:
  "map sd_messages (emitted (addMessage afterNumberOne numberTwo 6)) =
     [[\<lparr> sm_id = ''N1'', sm_text = ''9876543210'', sm_timestamp = 1700000000000,
         sm_receivedAt = 5 \<rparr>]] \<and>
   map (\<lambda>(sid, s). map sm_id (messages s)) (sessions (addMessage afterNumberOne numberTwo 6)) =
     [[''N2'']]"
proof -
  let ?old = "\<lparr> senderId = ''919800000001@s.whatsapp.net'', senderNumber = ''919800000001'',
             pushName = ''Agent'',
             messages = [\<lparr> sm_id = ''N1'', sm_text = ''9876543210'',
                            sm_timestamp = 1700000000000, sm_receivedAt = 5 \<rparr>],
             slots = \<lparr> slot_name = None, slot_mobile = Some ''9876543210'',
                       slot_address = None \<rparr>,
             startedAt = 5, lastMessageAt = 5 \<rparr>"
  have fresh: "msg_id numberTwo \<notin> set (processedMessageIds afterNumberOne)"
    by (simp add: numberTwo_def afterNumberOne_def)
  have nn: "\<not> isNoise (msg_text numberTwo)"
    by (simp add: numberTwo_def not_noise_two)
  have old: "map_of (sessions afterNumberOne) (msg_senderId numberTwo) = Some ?old"
    by (simp add: numberTwo_def firstMessage_def afterNumberOne_def)
  have slot: "identifySlot (msg_text numberTwo) \<noteq> Unknown"
    by (simp add: numberTwo_def slot_two)
  have filled: "getSlot (slots ?old) (identifySlot (msg_text numberTwo)) \<noteq> None"
    by (simp add: numberTwo_def slot_two)
  have limit: "1 < maxMessages afterNumberOne"
    by (simp add: afterNumberOne_def)
  show ?thesis
    using collision_step [OF afterNumberOne_wf fresh nn old slot filled limit, of 6]
    by (simp add: Let_def buildSessionData_def afterNumberOne_def numberTwo_def firstMessage_def)
qed

text \<open>
  C2. The code at an input where it departs from the claim: three phone numbers of one
  sender, the first two handed to \<open>addMessage\<close> within one millisecond (two messages of
  one \<open>messages.upsert\<close> batch). The second number collides with the first, whose session
  is emitted and whose id \<open>senderId_startedAt\<close> is cached; the session of the second
  number starts in the same millisecond and gets the same id. When the third number
  collides with it, the guard "Check if already processed" of \<open>processSession\<close> finds
  that id in \<open>processedSessions\<close> and deletes the session without emitting it: the only
  record emitted is that of the first number, and the second number is in no record
  and in no session.
\<close>

theorem slot_collision_drops_session:
  "processedMessageIds (run (constructor 120 10) [AddMessage numberOne 5, AddMessage numberTwo 5]) = [''N1'', ''N2''] \<and>
   msg_id numberThree = ''N3'' \<and>
   isNoise (msg_text numberThree) = False \<and>
   identifySlot (msg_text numberThree) = Mobile \<and>
   map (\<lambda>(sid, s). (sid, map sm_id (messages s), slot_mobile (slots s))) (sessions (run (constructor 120 10) [AddMessage numberOne 5, AddMessage numberTwo 5])) =
     [(msg_senderId numberThree, [''N2''], Some ''9876543211'')] \<and>
   map (\<lambda>d. map sm_id (sd_messages d)) (emitted (run (constructor 120 10) [AddMessage numberOne 5, AddMessage numberTwo 5])) = [[''N1'']] \<and>
   map (\<lambda>d. map sm_id (sd_messages d)) (emitted (addMessage (run (constructor 120 10) [AddMessage numberOne 5, AddMessage numberTwo 5]) numberThree 6)) = [[''N1'']] \<and>
   map (\<lambda>(sid, s). (sid, map sm_id (messages s), slot_mobile (slots s)))
     (sessions (addMessage (run (constructor 120 10) [AddMessage numberOne 5, AddMessage numberTwo 5]) numberThree 6)) =
     [(msg_senderId numberThree, [''N3''], Some ''9876543212'')]"
proof -
  have "emitted (addMessage afterNumberTwo numberThree 6) = emitted afterNumberTwo"
    by (simp add: numberThree_def firstMessage_def afterNumberTwo_def
        not_noise_three slot_three correlator_defs Let_def)
  moreover have "map (\<lambda>(sid, s). (sid, map sm_id (messages s), slot_mobile (slots s)))
      (sessions (addMessage afterNumberTwo numberThree 6)) =
      [(msg_senderId numberThree, [''N3''], Some ''9876543212'')]"
    by (simp add: numberThree_def firstMessage_def afterNumberTwo_def
        not_noise_three slot_three correlator_defs Let_def)
  ultimately show ?thesis
    unfolding two_numbers_run
    by (simp add: numberThree_def slot_three not_noise_three)
      (simp add: afterNumberTwo_def firstMessage_def)
qed

section \<open>flushAll\<close>

lemma showNat_digits: "list_all isDigit (showNat n)"
proof (induction n rule: showNat.induct)
  case (1 n)
  have digit: "isDigit (''0123456789'' ! k)" if "k < 10" for k
    using that nth_mem [of k "''0123456789''"] by (simp add: isDigit_def)
  show ?case
  proof (cases "n < 10")
    case True
    then show ?thesis using digit [of n] by (subst showNat.simps) simp
  next
    case False
    then show ?thesis using 1 digit [of "n mod 10"] by (subst showNat.simps) simp
  qed
qed

text \<open>The sender can be read off a session id: what precedes the last underscore.\<close>

lemma mkSessionId_sender: "rev (tl (dropWhile isDigit (rev (mkSessionId sid started)))) = sid"
proof -
  have "dropWhile isDigit (rev (showNat started) @ CHR ''_'' # rev sid) = CHR ''_'' # rev sid"
    using showNat_digits [of started]
    by (subst dropWhile_append3) (simp_all add: isDigit_def list_all_iff)
  then show ?thesis by (simp add: mkSessionId_def)
qed

lemma mkSessionId_inj: "mkSessionId a t = mkSessionId b u \<Longrightarrow> a = b"
  by (metis mkSessionId_sender)

lemma processSession_emitted_le:
  "length (emitted (processSession st sid now)) \<le> Suc (length (emitted st))"
  by (simp add: processSession_def Let_def split: option.splits)

lemma flushLoop_emitted_le:
  "length (emitted (flushLoop ks st now)) \<le> length (emitted st) + length ks"
proof (induction ks arbitrary: st)
  case Nil
  then show ?case by simp
next
  case (Cons k ks)
  show ?case
    using Cons.IH [of "processSession st k now"] Cons.IH [of st]
      processSession_emitted_le [of st k now]
    by auto
qed

lemma flushLoop_sessions:
  "sessionsOk st \<Longrightarrow> fst ` set (sessions st) \<subseteq> set ks \<Longrightarrow> sessions (flushLoop ks st now) = []"
proof (induction ks arbitrary: st)
  case Nil
  then show ?case by simp
next
  case (Cons k ks)
  show ?case
  proof (cases "k \<in> fst ` set (sessions st)")
    case True
    have gone: "sessions (processSession st k now) = AList.delete k (sessions st)"
      using Cons.prems(1) True by (rule processSession_sessions)
    have "fst ` set (sessions (processSession st k now)) \<subseteq> set ks"
      using Cons.prems(2) unfolding gone by (auto simp add: AList.delete_eq)
    then show ?thesis
      using True Cons.IH [of "processSession st k now"] Cons.prems(1)
      by (simp add: processSession_sessionsOk)
  next
    case False
    then have "fst ` set (sessions st) \<subseteq> set ks" using Cons.prems(2) by auto
    then show ?thesis using False Cons.IH [of st] Cons.prems(1) by simp
  qed
qed

lemma processedSessions_after:
  "set (processedSessions (processSession st sid now)) \<subseteq>
     set (processedSessions st) \<union> (\<Union>s \<in> set_option (map_of (sessions st) sid). {mkSessionId sid (startedAt s)})"
  by (auto simp add: processSession_def Let_def split: option.splits dest: in_set_dropD)

lemma flushLoop_all_emitted:
  "distinct ks \<Longrightarrow> sessionsOk st \<Longrightarrow>
   \<forall>k \<in> set ks. \<exists>s. map_of (sessions st) k = Some s \<and>
      mkSessionId k (startedAt s) \<notin> set (processedSessions st) \<Longrightarrow>
   emitted (flushLoop ks st now) =
     emitted st @ map (\<lambda>k. buildSessionData k (the (map_of (sessions st) k)) now) ks"
proof (induction ks arbitrary: st)
  case Nil
  then show ?case by simp
next
  case (Cons k ks)
  let ?st' = "processSession st k now"
  obtain s where s: "map_of (sessions st) k = Some s"
    and new: "mkSessionId k (startedAt s) \<notin> set (processedSessions st)"
    using Cons.prems(3) by auto
  have msgs: "messages s \<noteq> []" using Cons.prems(2) s stored_session_ok by blast
  have key: "k \<in> fst ` set (sessions st)" using s by (rule stored_key)
  have em: "emitted ?st' = emitted st @ [buildSessionData k s now]"
    using s msgs new by (simp add: processSession_emitted_list)
  have gone: "sessions ?st' = AList.delete k (sessions st)"
    using Cons.prems(2) key by (rule processSession_sessions)
  have other: "map_of (sessions ?st') k' = map_of (sessions st) k'" if "k' \<in> set ks" for k'
    using that Cons.prems(1) unfolding gone by (auto simp add: delete_conv')
  have rest: "\<forall>k' \<in> set ks. \<exists>s'. map_of (sessions ?st') k' = Some s' \<and>
      mkSessionId k' (startedAt s') \<notin> set (processedSessions ?st')"
  proof
    fix k' assume k': "k' \<in> set ks"
    then obtain s' where s': "map_of (sessions st) k' = Some s'"
      and new': "mkSessionId k' (startedAt s') \<notin> set (processedSessions st)"
      using Cons.prems(3) by auto
    have "k' \<noteq> k" using k' Cons.prems(1) by auto
    then have "mkSessionId k' (startedAt s') \<noteq> mkSessionId k (startedAt s)"
      using mkSessionId_inj by blast
    then have "mkSessionId k' (startedAt s') \<notin> set (processedSessions ?st')"
      using new' processedSessions_after [of st k now] s by auto
    then show "\<exists>s'. map_of (sessions ?st') k' = Some s' \<and>
      mkSessionId k' (startedAt s') \<notin> set (processedSessions ?st')"
      using s' other [OF k'] by simp
  qed
  have "emitted (flushLoop ks ?st' now) =
      emitted ?st' @ map (\<lambda>k. buildSessionData k (the (map_of (sessions ?st') k)) now) ks"
    using Cons.prems(1) Cons.prems(2) rest
    by (intro Cons.IH) (simp_all add: processSession_sessionsOk)
  also have "map (\<lambda>k. buildSessionData k (the (map_of (sessions ?st') k)) now) ks =
      map (\<lambda>k. buildSessionData k (the (map_of (sessions st) k)) now) ks"
    using other by simp
  finally show ?case using key em s by simp
qed

lemma map_over_keys:
  "distinct (map fst al) \<Longrightarrow> map (\<lambda>k. f k (the (map_of al k))) (map fst al) = map (\<lambda>(k, v). f k v) al"
  by (induction al) (auto simp add: rev_image_eqI)

text \<open>
  \<open>flushAll()\<close> leaves no active session and emits at most one record per session that
  was active. When no active session's id is in the cache of finalised session ids, it
  emits exactly one record for each active session, in the order in which the sessions
  were started.
\<close>

lemma flushAll_fresh_ids:
  assumes "sessionsOk st"
  shows "sessions (flushAll st now) = [] \<and>
     length (emitted (flushAll st now)) \<le> length (emitted st) + length (sessions st) \<and>
     (list_all (\<lambda>(sid, s). mkSessionId sid (startedAt s) \<notin> set (processedSessions st)) (sessions st) \<longrightarrow>
        emitted (flushAll st now) =
          emitted st @ map (\<lambda>(sid, s). buildSessionData sid s now) (sessions st))"
proof -
  have d: "distinct (map fst (sessions st))" using assms by (simp add: sessionsOk_def)
  have a: "sessions (flushAll st now) = []"
    unfolding flushAll_def using assms by (rule flushLoop_sessions) simp
  have b: "length (emitted (flushAll st now)) \<le> length (emitted st) + length (sessions st)"
    unfolding flushAll_def using flushLoop_emitted_le [of "map fst (sessions st)" st now] by simp
  have c: "emitted (flushAll st now) =
          emitted st @ map (\<lambda>(sid, s). buildSessionData sid s now) (sessions st)"
    if new: "list_all (\<lambda>(sid, s). mkSessionId sid (startedAt s) \<notin> set (processedSessions st)) (sessions st)"
  proof -
    have "\<forall>k \<in> set (map fst (sessions st)). \<exists>s. map_of (sessions st) k = Some s \<and>
        mkSessionId k (startedAt s) \<notin> set (processedSessions st)"
    proof
      fix k assume "k \<in> set (map fst (sessions st))"
      then obtain s where s: "(k, s) \<in> set (sessions st)" by auto
      then have "map_of (sessions st) k = Some s" using d by simp
      moreover have "mkSessionId k (startedAt s) \<notin> set (processedSessions st)"
        using new s by (auto simp add: list_all_iff)
      ultimately show "\<exists>s. map_of (sessions st) k = Some s \<and>
        mkSessionId k (startedAt s) \<notin> set (processedSessions st)" by blast
    qed
    then have "emitted (flushLoop (map fst (sessions st)) st now) =
        emitted st @ map (\<lambda>k. buildSessionData k (the (map_of (sessions st) k)) now) (map fst (sessions st))"
      using d assms by (intro flushLoop_all_emitted) simp_all
    then show ?thesis
      unfolding flushAll_def using map_over_keys [OF d, of "\<lambda>k v. buildSessionData k v now"] by simp
  qed
  show ?thesis using a b c by blast
qed

lemma flushAll_one_session:
  "sessions (flushAll afterFirst 9) = [] \<and>
   map sd_sessionId (emitted (flushAll afterFirst 9)) = [''919800000001@s.whatsapp.net_5'']"
proof -
  have ok: "sessionsOk afterFirst" using afterFirst_wf by (simp add: wellFormed_def)
  have new: "list_all (\<lambda>(sid, s). mkSessionId sid (startedAt s) \<notin> set (processedSessions afterFirst))
      (sessions afterFirst)"
    by (simp add: afterFirst_def)
  show ?thesis
    using flushAll_fresh_ids [OF ok, of 9] new
    by (simp add: afterFirst_def buildSessionData_def mkSessionId_def showNat.simps)
qed

text \<open>
  C8. The code at an input where it departs from the claim: \<open>flushAll()\<close> after two phone
  numbers of one sender that were handed to \<open>addMessage\<close> within one millisecond. One
  session is active, that of the second number; it has the session id of the session
  of the first number, which the collision emitted. \<open>flushAll()\<close> empties the store and
  emits nothing: the guard "Check if already processed" of \<open>processSession\<close> deletes
  the session, and the second number is in no record.
\<close>

theorem flushAll_drops_session:
  "map (\<lambda>(sid, s). map sm_id (messages s)) (sessions (run (constructor 120 10) [AddMessage numberOne 5, AddMessage numberTwo 5])) = [[''N2'']] \<and>
   map sd_sessionId (emitted (run (constructor 120 10) [AddMessage numberOne 5, AddMessage numberTwo 5])) = [''919800000001@s.whatsapp.net_5''] \<and>
   map (\<lambda>(sid, s). mkSessionId sid (startedAt s)) (sessions (run (constructor 120 10) [AddMessage numberOne 5, AddMessage numberTwo 5])) =
     [''919800000001@s.whatsapp.net_5''] \<and>
   map (\<lambda>d. map sm_id (sd_messages d)) (emitted (run (constructor 120 10) [AddMessage numberOne 5, AddMessage numberTwo 5])) = [[''N1'']] \<and>
   map (\<lambda>d. map sm_id (sd_messages d)) (emitted (flushAll (run (constructor 120 10) [AddMessage numberOne 5, AddMessage numberTwo 5]) 9)) = [[''N1'']] \<and>
   sessions (flushAll (run (constructor 120 10) [AddMessage numberOne 5, AddMessage numberTwo 5]) 9) = []"
  unfolding two_numbers_run
  by (simp add: flushAll_def afterNumberTwo_def processSession_def mkSessionId_def showNat.simps)

end
